theory Spec2Isabelle
  imports Main "HOL-Library.AList"
begin

section \<open>The channel builder of blogtv-data (scripts/build-channels.js)\<close>

text \<open>
  The script fetches channel listings from three network sources, merges them with two
  local JSON lists, removes duplicates by URL and writes two JSON documents. This theory
  embeds its functions in HOL and proves the properties its specification states.

  Conventions of the embedding.
  \<^item> A JavaScript string is the list of its code units (\<^typ>\<open>string\<close>); the code units
    are those of the Latin-1 range.
  \<^item> A JavaScript object whose properties are read by name is an association list from
    property names to values, in insertion order; \<^const>\<open>map_of\<close> reads a property and
    \<^const>\<open>AList.update\<close> writes one (in place when the key exists, at the end otherwise),
    as property assignment and object spread do.
  \<^item> A Channel Entry is an object with string-valued properties, any of which may be
    absent: \<open>name\<close>, \<open>url\<close>, \<open>logo\<close>, \<open>desc\<close>, \<open>source\<close>, \<open>type\<close>, \<open>category\<close> and whatever
    else a local file adds.
  \<^item> What the platform supplies (the HTTP client, the file system, the clock, the JSON
    reader) is a parameter of the function that calls it.
  \<^item> Exceptions are values: a function that can throw returns a sum, \<open>Inl\<close> the error.
\<close>

subsection \<open>History Builder: \<open>buildUrlHistory\<close>\<close>

text \<open>
  A JavaScript \<open>Set\<close> iterates in insertion order, and adding a member it already has
  changes nothing. It is modelled by the list of its members in that order.
\<close>

definition Set_add :: "'a list \<Rightarrow> 'a \<Rightarrow> 'a list" where
  "Set_add s x = (if x \<in> set s then s else s @ [x])"

definition new_Set :: "'a list \<Rightarrow> 'a list" where
  "new_Set xs = foldl Set_add [] xs"

definition defaults :: "string list" where
  "defaults =
    [''https://en.wikipedia.org/wiki/Television'',
     ''https://en.wikipedia.org/wiki/Internet'',
     ''https://en.wikipedia.org/wiki/Artificial_intelligence'',
     ''https://en.wikipedia.org/wiki/Space_exploration'',
     ''https://en.wikipedia.org/wiki/Climate_change'',
     ''https://en.wikipedia.org/wiki/History_of_the_Internet'',
     ''https://en.wikipedia.org/wiki/Streaming_media'',
     ''https://en.wikipedia.org/wiki/Quantum_computing'',
     ''https://en.wikipedia.org/wiki/Renewable_energy'',
     ''https://en.wikipedia.org/wiki/Cryptocurrency'']"

text \<open>
  \<open>existing\<close> is \<open>Some xs\<close> when the caller passes an array and \<open>None\<close> for anything else
  (\<open>Array.isArray(existing) ? existing : []\<close>).
\<close>

definition buildUrlHistory :: "string list option \<Rightarrow> string list" where
  "buildUrlHistory existing =
    (let existingUrls = (case existing of Some xs \<Rightarrow> xs | None \<Rightarrow> []);
         merged = new_Set (defaults @ existingUrls)
     in take 50 merged)"

subsection \<open>Category Table: \<open>CATEGORIES\<close>\<close>

record category_def =
  iptv_groups :: "string list"
  yt_query :: string
  tmdb_genre_id :: nat

text \<open>
  The table is an object literal; \<open>Object.entries\<close> lists it in the order it is written.
\<close>

definition CATEGORIES :: "(string \<times> category_def) list" where
  "CATEGORIES =
    [(''news'', \<lparr>iptv_groups = [''News'', ''General''], yt_query = ''news live stream'', tmdb_genre_id = 10763\<rparr>),
     (''technology'', \<lparr>iptv_groups = [''Science / Technology''], yt_query = ''technology documentary'', tmdb_genre_id = 10759\<rparr>),
     (''science'', \<lparr>iptv_groups = [''Science / Technology''], yt_query = ''science documentary'', tmdb_genre_id = 99\<rparr>),
     (''history'', \<lparr>iptv_groups = [''Education''], yt_query = ''history documentary'', tmdb_genre_id = 99\<rparr>),
     (''sports'', \<lparr>iptv_groups = [''Sports''], yt_query = ''sports live stream'', tmdb_genre_id = 10759\<rparr>),
     (''music'', \<lparr>iptv_groups = [''Music''], yt_query = ''music live stream'', tmdb_genre_id = 10749\<rparr>),
     (''entertainment'', \<lparr>iptv_groups = [''Entertainment'', ''Lifestyle''], yt_query = ''entertainment live stream'', tmdb_genre_id = 10751\<rparr>),
     (''nature'', \<lparr>iptv_groups = [''Science / Technology''], yt_query = ''nature wildlife documentary'', tmdb_genre_id = 99\<rparr>),
     (''cooking'', \<lparr>iptv_groups = [''Lifestyle''], yt_query = ''cooking show'', tmdb_genre_id = 10751\<rparr>),
     (''travel'', \<lparr>iptv_groups = [''Travel''], yt_query = ''travel documentary'', tmdb_genre_id = 10749\<rparr>),
     (''politics'', \<lparr>iptv_groups = [''News'', ''General''], yt_query = ''politics documentary'', tmdb_genre_id = 10763\<rparr>),
     (''business'', \<lparr>iptv_groups = [''Business''], yt_query = ''business finance documentary'', tmdb_genre_id = 10763\<rparr>),
     (''health'', \<lparr>iptv_groups = [''Lifestyle''], yt_query = ''health wellness documentary'', tmdb_genre_id = 10751\<rparr>),
     (''kids'', \<lparr>iptv_groups = [''Kids''], yt_query = ''kids educational show'', tmdb_genre_id = 10762\<rparr>),
     (''animation'', \<lparr>iptv_groups = [''Animation''], yt_query = ''animation show'', tmdb_genre_id = 16\<rparr>),
     (''general'', \<lparr>iptv_groups = [''General''], yt_query = ''documentary'', tmdb_genre_id = 99\<rparr>)]"

subsection \<open>Merge Engine: \<open>mergeAll\<close>\<close>

type_synonym entry = "(string \<times> string) list"

text \<open>
  \<open>e.url\<close>, \<open>obj[key] || []\<close> for an object whose values are arrays (an array is truthy,
  a missing property is \<open>undefined\<close>), and the two object spreads of the merge.
\<close>

definition url :: "entry \<Rightarrow> string option" where
  "url e = map_of e ''url''"

definition or_empty :: "'a list option \<Rightarrow> 'a list" where
  "or_empty v = (case v of None \<Rightarrow> [] | Some xs \<Rightarrow> xs)"

definition with_category :: "string \<Rightarrow> entry \<Rightarrow> entry" where
  "with_category cat s = AList.update ''category'' cat s"

definition with_category_source :: "string \<Rightarrow> string \<Rightarrow> entry \<Rightarrow> entry" where
  "with_category_source cat src s = AList.update ''source'' src (AList.update ''category'' cat s)"

text \<open>
  The five blocks that push onto \<open>entries\<close>, in the order of the source: the playlist
  groups of the category (up to 15 streams of each group), YouTube, TMDB, the custom file
  and the user file.
\<close>

definition iptv_entries :: "(string \<times> entry list) list \<Rightarrow> string \<Rightarrow> category_def \<Rightarrow> entry list" where
  "iptv_entries iptvByGroup cat def =
    foldl (\<lambda>entries group.
        let streams = or_empty (map_of iptvByGroup group)
        in entries @ map (with_category cat) (take 15 streams))
      [] (iptv_groups def)"

definition yt_entries :: "(string \<times> entry list) list \<Rightarrow> string \<Rightarrow> entry list" where
  "yt_entries ytByCategory cat =
    (let ytItems = or_empty (map_of ytByCategory cat) in map (with_category cat) ytItems)"

definition tmdb_entries :: "(string \<times> entry list) list \<Rightarrow> string \<Rightarrow> entry list" where
  "tmdb_entries tmdbByCategory cat =
    (let tmdbItems = or_empty (map_of tmdbByCategory cat) in map (with_category cat) tmdbItems)"

definition custom_entries :: "(string \<times> entry list) list \<Rightarrow> string \<Rightarrow> entry list" where
  "custom_entries custom cat =
    (let customItems = or_empty (map_of custom cat)
     in map (with_category_source cat ''custom'') customItems)"

definition user_entries :: "(string \<times> entry list) list \<Rightarrow> string \<Rightarrow> entry list" where
  "user_entries user cat =
    (let userItems = or_empty (map_of user cat)
     in map (with_category_source cat ''user'') userItems)"

definition category_entries ::
  "(string \<times> entry list) list \<Rightarrow> (string \<times> entry list) list \<Rightarrow> (string \<times> entry list) list \<Rightarrow>
   (string \<times> entry list) list \<Rightarrow> (string \<times> entry list) list \<Rightarrow> string \<Rightarrow> category_def \<Rightarrow> entry list" where
  "category_entries iptvByGroup ytByCategory tmdbByCategory custom user cat def =
    iptv_entries iptvByGroup cat def @ yt_entries ytByCategory cat @ tmdb_entries tmdbByCategory cat @
    custom_entries custom cat @ user_entries user cat"

text \<open>
  The deduplicating filter: its callback reads and extends the set \<open>seen\<close>, so the set is
  threaded through the traversal. An entry is dropped when its \<open>url\<close> is falsy (absent or
  the empty string) or already in \<open>seen\<close>.
\<close>

fun filter_seen :: "string list \<Rightarrow> entry list \<Rightarrow> entry list" where
  "filter_seen seen [] = []"
| "filter_seen seen (e # es) =
    (case url e of
       None \<Rightarrow> filter_seen seen es
     | Some u \<Rightarrow>
         if u = [] \<or> u \<in> set seen then filter_seen seen es
         else e # filter_seen (Set_add seen u) es)"

record output_document =
  updated :: string
  version :: string
  categories :: "(string \<times> entry list) list"

text \<open>\<open>now\<close> is the text of \<open>new Date().toISOString()\<close> at the time of the call.\<close>

definition mergeAll ::
  "string \<Rightarrow> (string \<times> entry list) list \<Rightarrow> (string \<times> entry list) list \<Rightarrow> (string \<times> entry list) list \<Rightarrow>
   (string \<times> entry list) list \<Rightarrow> (string \<times> entry list) list \<Rightarrow> output_document" where
  "mergeAll now iptvByGroup ytByCategory tmdbByCategory custom user =
    foldl (\<lambda>out (cat, def).
        let entries = category_entries iptvByGroup ytByCategory tmdbByCategory custom user cat def;
            deduped = filter_seen [] entries
        in out\<lparr>categories := AList.update cat deduped (categories out)\<rparr>)
      \<lparr>updated = now, version = ''1.0'', categories = []\<rparr>
      CATEGORIES"

subsection \<open>Local Loader: \<open>loadLocal\<close>\<close>

text \<open>
  What \<open>JSON.parse\<close> returns. A string is its list of code units, a number is kept as
  the text of its literal (the value is the double that text denotes), an object is the
  list of its members in the order of their first appearance.
\<close>

datatype json =
  JNull
| JBool bool
| JNumber string
| JString "nat list"
| JArray "json list"
| JObject "(nat list \<times> json) list"

fun is_mapping :: "json \<Rightarrow> bool" where
  "is_mapping (JObject kvs) = True"
| "is_mapping v = False"

text \<open>
  A path of the file system holds nothing, a file that can be read as text, or something
  whose reading fails with a message (a directory, a file without permission).
\<close>

datatype file_node = Readable string | Unreadable string

type_synonym filesystem = "string \<Rightarrow> file_node option"

definition path_join :: "string \<Rightarrow> string \<Rightarrow> string" where
  "path_join dir name = dir @ ''/'' @ name"

text \<open>
  \<open>loadLocal\<close> returns the value and the lines it wrote with \<open>console.warn\<close>. \<open>parse\<close>
  stands for \<open>JSON.parse\<close>: \<open>Inr\<close> the value, or \<open>Inl\<close> the message of the error it throws.
  The body of the \<open>try\<close> is a sum, and the \<open>catch\<close> handles its \<open>Inl\<close>.
\<close>

definition loadLocal ::
  "(string \<Rightarrow> string + json) \<Rightarrow> string \<Rightarrow> filesystem \<Rightarrow> string \<Rightarrow> json \<times> string list" where
  "loadLocal parse DATA_DIR fs filename =
    (let p = path_join DATA_DIR filename in
     if fs p = None then (JObject [], [])
     else
       case (case fs p of
               Some (Readable content) \<Rightarrow> parse content
             | Some (Unreadable message) \<Rightarrow> Inl message
             | None \<Rightarrow> Inl ''ENOENT'')
       of Inr v \<Rightarrow> (v, [])
        | Inl message \<Rightarrow>
            (JObject [], [''  WARN: could not parse '' @ filename @ '': '' @ message]))"

subsection \<open>The JSON reader of the platform\<close>

text \<open>
  \<open>JSON.parse\<close> on a text, after ECMA-404: a lexer that reads the text one code unit at
  a time, and a parser that reads the tokens one at a time with a stack of the open
  arrays and objects. Both are total; a text that is not JSON gives \<open>Inl\<close>. The message
  of the \<open>SyntaxError\<close> depends on the engine and is not modelled.
\<close>

datatype token =
  LBrace | RBrace | LBracket | RBracket | Colon | Comma
| TString "nat list" | TNumber string | TTrue | TFalse | TNull

datatype lexer =
  LIdle
| LStr "nat list"
| LEsc "nat list"
| LHex "nat list" "nat list"
| LNum string
| LWord string

definition is_digit :: "char \<Rightarrow> bool" where
  "is_digit c = (48 \<le> (of_char c :: nat) \<and> (of_char c :: nat) \<le> 57)"

definition is_letter :: "char \<Rightarrow> bool" where
  "is_letter c = (97 \<le> (of_char c :: nat) \<and> (of_char c :: nat) \<le> 122)"

definition is_json_space :: "char \<Rightarrow> bool" where
  "is_json_space c = (c \<in> set [CHR '' '', CHR 0x09, CHR 0x0A, CHR 0x0D])"

definition is_number_char :: "char \<Rightarrow> bool" where
  "is_number_char c = (is_digit c \<or> c \<in> set [CHR ''-'', CHR ''+'', CHR ''.'', CHR ''e'', CHR ''E''])"

definition number_exp :: "string \<Rightarrow> bool" where
  "number_exp s =
    (case s of
       [] \<Rightarrow> True
     | c # cs \<Rightarrow>
         (c = CHR ''e'' \<or> c = CHR ''E'') \<and>
         (let ds = (case cs of [] \<Rightarrow> [] | x # xs \<Rightarrow> if x = CHR ''+'' \<or> x = CHR ''-'' then xs else cs)
          in ds \<noteq> [] \<and> list_all is_digit ds))"

definition number_frac :: "string \<Rightarrow> bool" where
  "number_frac s =
    (case s of
       [] \<Rightarrow> True
     | c # cs \<Rightarrow>
         if c = CHR ''.'' then takeWhile is_digit cs \<noteq> [] \<and> number_exp (dropWhile is_digit cs)
         else number_exp s)"

definition number_int :: "string \<Rightarrow> bool" where
  "number_int s =
    (case s of
       [] \<Rightarrow> False
     | c # cs \<Rightarrow>
         if c = CHR ''0'' then number_frac cs
         else is_digit c \<and> number_frac (dropWhile is_digit cs))"

definition valid_number :: "string \<Rightarrow> bool" where
  "valid_number s =
    (case s of [] \<Rightarrow> False | c # cs \<Rightarrow> if c = CHR ''-'' then number_int cs else number_int s)"

definition hex_value :: "char \<Rightarrow> nat option" where
  "hex_value c =
    (if is_digit c then Some (of_char c - 48)
     else if 97 \<le> (of_char c :: nat) \<and> (of_char c :: nat) \<le> 102 then Some (of_char c - 87)
     else if 65 \<le> (of_char c :: nat) \<and> (of_char c :: nat) \<le> 70 then Some (of_char c - 55)
     else None)"

definition escape_value :: "char \<Rightarrow> nat option" where
  "escape_value c =
    (if c = CHR 0x22 then Some 0x22
     else if c = CHR 0x5C then Some 0x5C
     else if c = CHR ''/'' then Some 0x2F
     else if c = CHR ''b'' then Some 0x08
     else if c = CHR ''f'' then Some 0x0C
     else if c = CHR ''n'' then Some 0x0A
     else if c = CHR ''r'' then Some 0x0D
     else if c = CHR ''t'' then Some 0x09
     else None)"

definition finish_lexeme :: "lexer \<Rightarrow> token list option" where
  "finish_lexeme l =
    (case l of
       LIdle \<Rightarrow> Some []
     | LNum s \<Rightarrow> if valid_number s then Some [TNumber s] else None
     | LWord w \<Rightarrow>
         if w = ''true'' then Some [TTrue]
         else if w = ''false'' then Some [TFalse]
         else if w = ''null'' then Some [TNull]
         else None
     | _ \<Rightarrow> None)"

definition lex_idle :: "token list \<Rightarrow> char \<Rightarrow> (token list \<times> lexer) option" where
  "lex_idle ts c =
    (if is_json_space c then Some (ts, LIdle)
     else if c = CHR ''{'' then Some (ts @ [LBrace], LIdle)
     else if c = CHR ''}'' then Some (ts @ [RBrace], LIdle)
     else if c = CHR ''['' then Some (ts @ [LBracket], LIdle)
     else if c = CHR '']'' then Some (ts @ [RBracket], LIdle)
     else if c = CHR '':'' then Some (ts @ [Colon], LIdle)
     else if c = CHR '','' then Some (ts @ [Comma], LIdle)
     else if c = CHR 0x22 then Some (ts, LStr [])
     else if c = CHR ''-'' \<or> is_digit c then Some (ts, LNum [c])
     else if is_letter c then Some (ts, LWord [c])
     else None)"

definition lex_char :: "token list \<times> lexer \<Rightarrow> char \<Rightarrow> (token list \<times> lexer) option" where
  "lex_char st c =
    (case st of (ts, l) \<Rightarrow>
      (case l of
         LIdle \<Rightarrow> lex_idle ts c
       | LStr s \<Rightarrow>
           if c = CHR 0x22 then Some (ts @ [TString s], LIdle)
           else if c = CHR 0x5C then Some (ts, LEsc s)
           else if (of_char c :: nat) < 0x20 then None
           else Some (ts, LStr (s @ [of_char c]))
       | LEsc s \<Rightarrow>
           if c = CHR ''u'' then Some (ts, LHex s [])
           else (case escape_value c of None \<Rightarrow> None | Some n \<Rightarrow> Some (ts, LStr (s @ [n])))
       | LHex s ds \<Rightarrow>
           (case hex_value c of
              None \<Rightarrow> None
            | Some d \<Rightarrow>
                if length ds = 3 then Some (ts, LStr (s @ [foldl (\<lambda>n h. 16 * n + h) 0 (ds @ [d])]))
                else Some (ts, LHex s (ds @ [d])))
       | LNum s \<Rightarrow>
           if is_number_char c then Some (ts, LNum (s @ [c]))
           else (case finish_lexeme l of None \<Rightarrow> None | Some t \<Rightarrow> lex_idle (ts @ t) c)
       | LWord w \<Rightarrow>
           if is_letter c then Some (ts, LWord (w @ [c]))
           else (case finish_lexeme l of None \<Rightarrow> None | Some t \<Rightarrow> lex_idle (ts @ t) c)))"

fun lex_from :: "token list \<times> lexer \<Rightarrow> string \<Rightarrow> token list option" where
  "lex_from st [] = (case finish_lexeme (snd st) of None \<Rightarrow> None | Some t \<Rightarrow> Some (fst st @ t))"
| "lex_from st (c # cs) = (case lex_char st c of None \<Rightarrow> None | Some st' \<Rightarrow> lex_from st' cs)"

datatype frame =
  FArr "json list"
| FObj "(nat list \<times> json) list"
| FObjKey "(nat list \<times> json) list" "nat list"

datatype mode = MValue | MValueOrClose | MKey | MKeyOrClose | MColon | MAfter | MDone json

definition close_value :: "json \<Rightarrow> frame list \<Rightarrow> (frame list \<times> mode) option" where
  "close_value v st =
    (case st of
       [] \<Rightarrow> Some ([], MDone v)
     | FArr xs # st' \<Rightarrow> Some (FArr (xs @ [v]) # st', MAfter)
     | FObjKey kvs k # st' \<Rightarrow> Some (FObj (AList.update k v kvs) # st', MAfter)
     | FObj kvs # st' \<Rightarrow> None)"

definition start_value :: "token \<Rightarrow> frame list \<Rightarrow> (frame list \<times> mode) option" where
  "start_value t st =
    (case t of
       TString s \<Rightarrow> close_value (JString s) st
     | TNumber n \<Rightarrow> close_value (JNumber n) st
     | TTrue \<Rightarrow> close_value (JBool True) st
     | TFalse \<Rightarrow> close_value (JBool False) st
     | TNull \<Rightarrow> close_value JNull st
     | LBracket \<Rightarrow> Some (FArr [] # st, MValueOrClose)
     | LBrace \<Rightarrow> Some (FObj [] # st, MKeyOrClose)
     | _ \<Rightarrow> None)"

definition close_array :: "frame list \<Rightarrow> (frame list \<times> mode) option" where
  "close_array st = (case st of FArr xs # st' \<Rightarrow> close_value (JArray xs) st' | _ \<Rightarrow> None)"

definition close_object :: "frame list \<Rightarrow> (frame list \<times> mode) option" where
  "close_object st = (case st of FObj kvs # st' \<Rightarrow> close_value (JObject kvs) st' | _ \<Rightarrow> None)"

definition take_key :: "token \<Rightarrow> frame list \<Rightarrow> (frame list \<times> mode) option" where
  "take_key t st =
    (case t of
       TString k \<Rightarrow> (case st of FObj kvs # st' \<Rightarrow> Some (FObjKey kvs k # st', MColon) | _ \<Rightarrow> None)
     | _ \<Rightarrow> None)"

definition parse_token :: "frame list \<times> mode \<Rightarrow> token \<Rightarrow> (frame list \<times> mode) option" where
  "parse_token s t =
    (case s of (st, m) \<Rightarrow>
      (case m of
         MValue \<Rightarrow> start_value t st
       | MValueOrClose \<Rightarrow> if t = RBracket then close_array st else start_value t st
       | MKey \<Rightarrow> take_key t st
       | MKeyOrClose \<Rightarrow> if t = RBrace then close_object st else take_key t st
       | MColon \<Rightarrow> if t = Colon then Some (st, MValue) else None
       | MAfter \<Rightarrow>
           (case t of
              Comma \<Rightarrow>
                (case st of
                   FArr xs # st' \<Rightarrow> Some (st, MValue)
                 | FObj kvs # st' \<Rightarrow> Some (st, MKey)
                 | _ \<Rightarrow> None)
            | RBracket \<Rightarrow> close_array st
            | RBrace \<Rightarrow> close_object st
            | _ \<Rightarrow> None)
       | MDone v \<Rightarrow> None))"

fun parse_from :: "frame list \<times> mode \<Rightarrow> token list \<Rightarrow> json option" where
  "parse_from s [] = (case s of ([], MDone v) \<Rightarrow> Some v | _ \<Rightarrow> None)"
| "parse_from s (t # ts) = (case parse_token s t of None \<Rightarrow> None | Some s' \<Rightarrow> parse_from s' ts)"

definition JSON_parse :: "string \<Rightarrow> string + json" where
  "JSON_parse content =
    (case lex_from ([], LIdle) content of
       None \<Rightarrow> Inl ''SyntaxError''
     | Some ts \<Rightarrow>
         (case parse_from ([], MValue) ts of
            None \<Rightarrow> Inl ''SyntaxError''
          | Some v \<Rightarrow> Inr v))"

subsection \<open>Video Search Fetcher: \<open>fetchYouTube\<close>\<close>

text \<open>
  The helper \<open>get\<close> returns the body of the response, or \<open>null\<close> when the request fails;
  it is a parameter \<open>get url params\<close> with \<open>None\<close> for \<open>null\<close>. A response body is typed
  by the fields the fetcher reads, each optional where the code guards against its
  absence: \<open>items\<close>, and in an item \<open>id.videoId\<close>, \<open>snippet\<close>, \<open>snippet.title\<close>,
  \<open>snippet.thumbnails.default.url\<close> and \<open>snippet.description\<close>. The only read the code
  does not guard is \<open>i.snippet.title\<close> on an item without \<open>snippet\<close>, which throws.
\<close>

record yt_params =
  key :: string
  q :: string
  part :: string
  search_type :: string
  maxResults :: nat
  videoCategoryId :: nat
  videoEmbeddable :: bool

record yt_snippet =
  title :: "string option"
  thumbnails_default_url :: "string option"
  description :: "string option"

record yt_item =
  videoId :: "string option"
  snippet :: "yt_snippet option"

record yt_response =
  items :: "yt_item list option"

datatype error = TypeError string

text \<open>\<open>x || ''\<close> for an optional string: the empty string when \<open>x\<close> is absent or empty.\<close>

definition or_blank :: "string option \<Rightarrow> string" where
  "or_blank v = (case v of None \<Rightarrow> [] | Some s \<Rightarrow> s)"

definition truthy :: "string option \<Rightarrow> bool" where
  "truthy v = (case v of None \<Rightarrow> False | Some s \<Rightarrow> s \<noteq> [])"

text \<open>
  An object literal with a property whose value is \<open>undefined\<close>: the property is left out
  of the association list (reading it gives \<open>undefined\<close> either way, and \<open>JSON.stringify\<close>
  omits it).
\<close>

definition property :: "string \<Rightarrow> string option \<Rightarrow> entry" where
  "property k v = (case v of None \<Rightarrow> [] | Some s \<Rightarrow> [(k, s)])"

definition yt_entry :: "yt_item \<Rightarrow> error + entry" where
  "yt_entry i =
    (case snippet i of
       None \<Rightarrow> Inl (TypeError ''Cannot read properties of undefined (reading title)'')
     | Some sn \<Rightarrow>
         Inr (property ''name'' (title sn) @
              [(''url'', ''https://www.youtube.com/watch?v='' @ or_blank (videoId i)),
               (''logo'', or_blank (thumbnails_default_url sn)),
               (''desc'', or_blank (map_option (take 120) (description sn))),
               (''source'', ''youtube''),
               (''type'', ''vod'')]))"

text \<open>\<open>Array.prototype.map\<close> with a callback that can throw: the first error ends it.\<close>

fun map_throwing :: "('a \<Rightarrow> error + 'b) \<Rightarrow> 'a list \<Rightarrow> error + 'b list" where
  "map_throwing f [] = Inr []"
| "map_throwing f (x # xs) =
    (case f x of
       Inl e \<Rightarrow> Inl e
     | Inr y \<Rightarrow> (case map_throwing f xs of Inl e \<Rightarrow> Inl e | Inr ys \<Rightarrow> Inr (y # ys)))"

definition yt_request :: "string \<Rightarrow> category_def \<Rightarrow> yt_params" where
  "yt_request YOUTUBE_KEY def =
    \<lparr>key = YOUTUBE_KEY, q = yt_query def, part = ''snippet'', search_type = ''video'',
     maxResults = 8, videoCategoryId = 0, videoEmbeddable = True\<rparr>"

fun fetchYouTube_loop ::
  "(string \<Rightarrow> yt_params \<Rightarrow> yt_response option) \<Rightarrow> string \<Rightarrow> (string \<times> entry list) list \<Rightarrow>
   (string \<times> category_def) list \<Rightarrow> error + (string \<times> entry list) list" where
  "fetchYouTube_loop get YOUTUBE_KEY byCategory [] = Inr byCategory"
| "fetchYouTube_loop get YOUTUBE_KEY byCategory ((cat, def) # rest) =
    (case get ''https://www.googleapis.com/youtube/v3/search'' (yt_request YOUTUBE_KEY def) of
       None \<Rightarrow> fetchYouTube_loop get YOUTUBE_KEY byCategory rest
     | Some data \<Rightarrow>
         (case items data of
            None \<Rightarrow> fetchYouTube_loop get YOUTUBE_KEY byCategory rest
          | Some its \<Rightarrow>
              (case map_throwing yt_entry (filter (\<lambda>i. truthy (videoId i)) its) of
                 Inl e \<Rightarrow> Inl e
               | Inr es \<Rightarrow> fetchYouTube_loop get YOUTUBE_KEY (AList.update cat es byCategory) rest)))"

definition fetchYouTube ::
  "string \<Rightarrow> (string \<Rightarrow> yt_params \<Rightarrow> yt_response option) \<Rightarrow> error + (string \<times> entry list) list" where
  "fetchYouTube YOUTUBE_KEY get =
    (if YOUTUBE_KEY = [] then Inr []
     else fetchYouTube_loop get YOUTUBE_KEY [] CATEGORIES)"

subsection \<open>Metadata Fetcher: \<open>fetchTMDB\<close>\<close>

text \<open>
  A TMDB result is typed by the fields the fetcher reads; \<open>id\<close> is a number, written in
  decimal by the template string.
\<close>

record tmdb_params =
  api_key :: string
  with_genres :: nat
  sort_by :: string
  page :: nat

record tmdb_result =
  r_name :: "string option"
  r_original_name :: "string option"
  r_id :: nat
  r_poster_path :: "string option"
  r_overview :: "string option"

record tmdb_response =
  results :: "tmdb_result list option"

fun decimal :: "nat \<Rightarrow> string" where
  "decimal n =
    (if n < 10 then [''0123456789'' ! n]
     else decimal (n div 10) @ [''0123456789'' ! (n mod 10)])"

declare decimal.simps [simp del]

definition tmdb_entry :: "tmdb_result \<Rightarrow> entry" where
  "tmdb_entry r =
    property ''name'' (if truthy (r_name r) then r_name r else r_original_name r) @
    [(''url'', ''https://www.themoviedb.org/tv/'' @ decimal (r_id r)),
     (''logo'', if truthy (r_poster_path r)
                then ''https://image.tmdb.org/t/p/w92'' @ or_blank (r_poster_path r) else []),
     (''desc'', take 120 (or_blank (r_overview r))),
     (''source'', ''tmdb''),
     (''type'', ''info'')]"

definition tmdb_request :: "string \<Rightarrow> category_def \<Rightarrow> tmdb_params" where
  "tmdb_request TMDB_KEY def =
    \<lparr>api_key = TMDB_KEY, with_genres = tmdb_genre_id def, sort_by = ''popularity.desc'', page = 1\<rparr>"

text \<open>
  The state of the loop is \<open>byCategory\<close> and \<open>seen\<close> (the fields \<open>s_byCategory\<close> and
  \<open>s_seen\<close>); beside them the model keeps \<open>s_asked\<close>, the categories for which \<open>get\<close> has
  been called, in order, so that a statement can say which categories issue a request.
  \<open>fetchTMDB_body\<close> is one pass of the \<open>for\<close> loop (a \<open>continue\<close> returns the state as it
  stands), and the loop folds it over the table.
\<close>

record tmdb_state =
  s_byCategory :: "(string \<times> entry list) list"
  s_seen :: "nat list"
  s_asked :: "string list"

fun fetchTMDB_body ::
  "(string \<Rightarrow> tmdb_params \<Rightarrow> tmdb_response option) \<Rightarrow> string \<Rightarrow> tmdb_state \<Rightarrow>
   string \<times> category_def \<Rightarrow> tmdb_state" where
  "fetchTMDB_body get TMDB_KEY s (cat, def) =
    (if tmdb_genre_id def \<in> set (s_seen s) then s
     else
       let s1 = s\<lparr>s_seen := Set_add (s_seen s) (tmdb_genre_id def), s_asked := s_asked s @ [cat]\<rparr>
       in case get ''https://api.themoviedb.org/3/discover/tv'' (tmdb_request TMDB_KEY def) of
            None \<Rightarrow> s1
          | Some data \<Rightarrow>
              (case results data of
                 None \<Rightarrow> s1
               | Some rs \<Rightarrow>
                   s1\<lparr>s_byCategory := AList.update cat (map tmdb_entry (take 8 rs)) (s_byCategory s1)\<rparr>))"

definition fetchTMDB ::
  "string \<Rightarrow> (string \<Rightarrow> tmdb_params \<Rightarrow> tmdb_response option) \<Rightarrow> tmdb_state" where
  "fetchTMDB TMDB_KEY get =
    (if TMDB_KEY = [] then \<lparr>s_byCategory = [], s_seen = [], s_asked = []\<rparr>
     else foldl (fetchTMDB_body get TMDB_KEY) \<lparr>s_byCategory = [], s_seen = [], s_asked = []\<rparr> CATEGORIES)"

subsection \<open>Playlist Fetcher: \<open>fetchIptvOrg\<close>\<close>

text \<open>
  String operations of the platform, on code units of the Latin-1 range:
  \<open>String.prototype.trim\<close> removes white space and line terminators from both ends
  (tab, line feed, vertical tab, form feed, carriage return, space, no-break space);
  \<open>split\<close> cuts at every occurrence of the separator; \<open>startsWith\<close> compares a prefix.
\<close>

definition is_space :: "char \<Rightarrow> bool" where
  "is_space c = (c \<in> set [CHR 0x09, CHR 0x0A, CHR 0x0B, CHR 0x0C, CHR 0x0D, CHR 0x20, CHR 0xA0])"

definition trim :: "string \<Rightarrow> string" where
  "trim s = rev (dropWhile is_space (rev (dropWhile is_space s)))"

fun split :: "char \<Rightarrow> string \<Rightarrow> string list" where
  "split sep [] = [[]]"
| "split sep (c # cs) =
    (if c = sep then [] # split sep cs
     else (case split sep cs of [] \<Rightarrow> [[c]] | l # ls \<Rightarrow> (c # l) # ls))"

definition startsWith :: "string \<Rightarrow> string \<Rightarrow> bool" where
  "startsWith s p = (take (length p) s = p)"

text \<open>
  The four regular expressions. \<open>/KEY="([^"]*)"/i\<close> matches at the leftmost place where
  \<open>KEY="\<close> stands, letters compared without case, and a closing quote follows somewhere;
  the group is the text up to the first closing quote. \<open>/,(.+)$/\<close> matches at the leftmost
  comma that has at least one code unit after it and no line terminator up to the end of
  the string; the group is everything after that comma.
\<close>

definition lower :: "char \<Rightarrow> char" where
  "lower c =
    (case map_of (zip ''ABCDEFGHIJKLMNOPQRSTUVWXYZ'' ''abcdefghijklmnopqrstuvwxyz'') c of
       None \<Rightarrow> c
     | Some l \<Rightarrow> l)"

definition startsWith_nocase :: "string \<Rightarrow> string \<Rightarrow> bool" where
  "startsWith_nocase s p = (length p \<le> length s \<and> map lower (take (length p) s) = map lower p)"

fun match_attr :: "string \<Rightarrow> string \<Rightarrow> string option" where
  "match_attr k [] = None"
| "match_attr k (c # cs) =
    (let after = drop (length k + 2) (c # cs)
     in if startsWith_nocase (c # cs) (k @ [CHR ''='', CHR 0x22]) \<and> CHR 0x22 \<in> set after
        then Some (takeWhile (\<lambda>x. x \<noteq> CHR 0x22) after)
        else match_attr k cs)"

definition is_line_terminator :: "char \<Rightarrow> bool" where
  "is_line_terminator c = (c = CHR 0x0A \<or> c = CHR 0x0D)"

fun match_name :: "string \<Rightarrow> string option" where
  "match_name [] = None"
| "match_name (c # cs) =
    (if c = CHR '','' \<and> cs \<noteq> [] \<and> list_all (\<lambda>x. \<not> is_line_terminator x) cs then Some cs
     else match_name cs)"

text \<open>
  \<open>current\<close>, the object built from a metadata line. When the URL line comes,
  \<open>current.url\<close> is set and a copy of the object is pushed: \<open>stream_entry\<close>.
\<close>

record stream_meta =
  m_name :: string
  m_logo :: string
  m_id :: string
  m_group :: string
  m_source :: string
  m_type :: string

definition parse_extinf :: "string \<Rightarrow> stream_meta" where
  "parse_extinf trimmed =
    (let groupMatch = match_attr ''group-title'' trimmed;
         nameMatch = match_name trimmed;
         logoMatch = match_attr ''tvg-logo'' trimmed;
         idMatch = match_attr ''tvg-id'' trimmed
     in \<lparr>m_name = (case nameMatch of Some n \<Rightarrow> trim n | None \<Rightarrow> ''Unknown''),
         m_logo = (case logoMatch of Some l \<Rightarrow> trim l | None \<Rightarrow> []),
         m_id = (case idMatch of Some i \<Rightarrow> trim i | None \<Rightarrow> []),
         m_group = (case groupMatch of Some g \<Rightarrow> trim g | None \<Rightarrow> ''General''),
         m_source = ''iptv-org'',
         m_type = ''live''\<rparr>)"

definition stream_entry :: "stream_meta \<Rightarrow> string \<Rightarrow> entry" where
  "stream_entry current trimmed =
    [(''name'', m_name current), (''logo'', m_logo current), (''id'', m_id current),
     (''group'', m_group current), (''source'', m_source current), (''type'', m_type current),
     (''url'', trimmed)]"

text \<open>
  \<open>byGroup\<close> is created by \<open>{}\<close>, so \<open>byGroup[g]\<close> for a group it does not hold reads
  \<open>Object.prototype\<close>. For the name of one of its methods the read gives a function: it is
  truthy, its \<open>length\<close> is below 60 and it has no \<open>push\<close>, so the call throws. For
  \<open>__proto__\<close> the read gives the prototype object: it is truthy and has no \<open>length\<close>, so
  nothing is pushed. For any other name the read gives \<open>undefined\<close> and the group is
  created. A group holds at most 60 streams.
\<close>

definition Object_prototype_methods :: "string list" where
  "Object_prototype_methods =
    [''constructor'', ''__defineGetter__'', ''__defineSetter__'', ''hasOwnProperty'',
     ''__lookupGetter__'', ''__lookupSetter__'', ''isPrototypeOf'', ''propertyIsEnumerable'',
     ''toString'', ''valueOf'', ''toLocaleString'']"

definition push_stream :: "(string \<times> entry list) list \<Rightarrow> string \<Rightarrow> entry \<Rightarrow> error + (string \<times> entry list) list" where
  "push_stream byGroup g e =
    (case map_of byGroup g of
       Some streams \<Rightarrow>
         Inr (if length streams < 60 then AList.update g (streams @ [e]) byGroup else byGroup)
     | None \<Rightarrow>
         if g \<in> set Object_prototype_methods then Inl (TypeError ''byGroup[g].push is not a function'')
         else if g = ''__proto__'' then Inr byGroup
         else Inr (AList.update g [e] byGroup))"

text \<open>One pass of the loop over the lines: the state is \<open>byGroup\<close> and \<open>current\<close>.\<close>

definition iptv_line ::
  "(string \<times> entry list) list \<times> stream_meta option \<Rightarrow> string \<Rightarrow>
   error + (string \<times> entry list) list \<times> stream_meta option" where
  "iptv_line state line =
    (case state of (byGroup, current) \<Rightarrow>
      (let trimmed = trim line in
       if startsWith trimmed ''#EXTINF'' then Inr (byGroup, Some (parse_extinf trimmed))
       else if startsWith trimmed ''http'' \<and> current \<noteq> None then
         (case current of
            None \<Rightarrow> Inr (byGroup, current)
          | Some cur \<Rightarrow>
              (case push_stream byGroup (m_group cur) (stream_entry cur trimmed) of
                 Inl err \<Rightarrow> Inl err
               | Inr byGroup' \<Rightarrow> Inr (byGroup', None)))
       else Inr (byGroup, current)))"

fun iptv_lines ::
  "(string \<times> entry list) list \<times> stream_meta option \<Rightarrow> string list \<Rightarrow>
   error + (string \<times> entry list) list \<times> stream_meta option" where
  "iptv_lines state [] = Inr state"
| "iptv_lines state (line # lines) =
    (case iptv_line state line of
       Inl err \<Rightarrow> Inl err
     | Inr state' \<Rightarrow> iptv_lines state' lines)"

text \<open>
  \<open>raw\<close> is what \<open>get\<close> returned for the playlist: \<open>None\<close> for \<open>null\<close>, else the text.
\<close>

definition fetchIptvOrg :: "string option \<Rightarrow> error + (string \<times> entry list) list" where
  "fetchIptvOrg raw =
    (case raw of
       None \<Rightarrow> Inr []
     | Some body \<Rightarrow>
         if body = [] then Inr []
         else (case iptv_lines ([], None) (split CHR 0x0A body) of
                 Inl err \<Rightarrow> Inl err
               | Inr (byGroup, current) \<Rightarrow> Inr byGroup))"

text \<open>
  The words of the specification for the URL of an entry, to compare with the code:
  the non-blank line that follows the metadata line.
\<close>

definition following_nonblank :: "string list \<Rightarrow> string option" where
  "following_nonblank lines = map_option trim (find (\<lambda>l. trim l \<noteq> []) lines)"

subsection \<open>Auxiliary predicates\<close>

text \<open>What the response to one category's request contributes to \<open>fetchYouTube\<close>.\<close>

definition yt_answer ::
  "(string \<Rightarrow> yt_params \<Rightarrow> yt_response option) \<Rightarrow> string \<Rightarrow> category_def \<Rightarrow> entry list \<Rightarrow> bool" where
  "yt_answer get k d es =
    (\<exists>data its.
        get ''https://www.googleapis.com/youtube/v3/search'' (yt_request k d) = Some data \<and>
        items data = Some its \<and>
        map_throwing yt_entry (filter (\<lambda>i. truthy (videoId i)) its) = Inr es)"

text \<open>
  How an emitted stream relates to the lines of the playlist: \<open>skipped_line\<close> is a line
  the loop passes over, \<open>pending_from\<close> says that the metadata held in \<open>current\<close> meets
  its URL line in the lines to come, \<open>emitted_from\<close> that a metadata line of the lines to
  come does.
\<close>

definition skipped_line :: "string \<Rightarrow> bool" where
  "skipped_line l = (\<not> startsWith (trim l) ''#EXTINF'' \<and> \<not> startsWith (trim l) ''http'')"

definition pending_from :: "stream_meta \<Rightarrow> string list \<Rightarrow> string \<Rightarrow> entry \<Rightarrow> bool" where
  "pending_from c lines g e =
    (\<exists>mid u post. lines = mid @ u # post \<and> list_all skipped_line mid \<and>
       startsWith (trim u) ''http'' \<and> e = stream_entry c (trim u) \<and> m_group c = g)"

definition emitted_from :: "string list \<Rightarrow> string \<Rightarrow> entry \<Rightarrow> bool" where
  "emitted_from lines g e =
    (\<exists>pre m post. lines = pre @ m # post \<and> startsWith (trim m) ''#EXTINF'' \<and>
       pending_from (parse_extinf (trim m)) post g e)"

subsection \<open>Facts about insertion-ordered sets\<close>

lemma foldl_Set_add_distinct:
  "distinct acc \<Longrightarrow> distinct (foldl Set_add acc xs)"
  by (induction xs arbitrary: acc) (auto simp: Set_add_def)

lemma foldl_Set_add_known:
  "set xs \<subseteq> set acc \<Longrightarrow> foldl Set_add acc xs = acc"
  by (induction xs arbitrary: acc) (auto simp: Set_add_def)

lemma foldl_Set_add_fresh:
  "distinct (acc @ xs) \<Longrightarrow> foldl Set_add acc xs = acc @ xs"
proof (induction xs arbitrary: acc)
  case Nil
  then show ?case by simp
next
  case (Cons x xs)
  from Cons.prems have fresh: "x \<notin> set acc" and rest: "distinct ((acc @ [x]) @ xs)"
    by auto
  have "foldl Set_add acc (x # xs) = foldl Set_add (acc @ [x]) xs"
    using fresh by (simp add: Set_add_def)
  also have "\<dots> = (acc @ [x]) @ xs"
    using rest by (rule Cons.IH)
  finally show ?case by simp
qed

lemma foldl_Set_add_prefix:
  "\<exists>ys. foldl Set_add acc xs = acc @ ys"
proof (induction xs arbitrary: acc)
  case Nil
  then show ?case by simp
next
  case (Cons x xs)
  obtain ys where ys: "foldl Set_add (Set_add acc x) xs = Set_add acc x @ ys"
    using Cons.IH by blast
  show ?case
  proof (cases "x \<in> set acc")
    case True
    then have "Set_add acc x = acc" by (simp add: Set_add_def)
    with ys show ?thesis by simp
  next
    case False
    then have "Set_add acc x = acc @ [x]" by (simp add: Set_add_def)
    with ys show ?thesis by simp
  qed
qed

lemma distinct_defaults: "distinct defaults"
  by (simp add: defaults_def)

lemma length_defaults: "length defaults = 10"
  by (simp add: defaults_def)

lemma new_Set_defaults_append:
  "\<exists>ys. new_Set (defaults @ xs) = defaults @ ys \<and> distinct (defaults @ ys)"
proof -
  have start: "foldl Set_add [] defaults = defaults"
    using foldl_Set_add_fresh [of "[]" defaults] distinct_defaults by simp
  obtain ys where ys: "foldl Set_add defaults xs = defaults @ ys"
    using foldl_Set_add_prefix by blast
  have "distinct (foldl Set_add defaults xs)"
    using distinct_defaults by (rule foldl_Set_add_distinct)
  with ys start show ?thesis by (auto simp: new_Set_def)
qed

lemma buildUrlHistory_shape:
  "\<exists>ys. buildUrlHistory existing = defaults @ ys \<and> distinct (defaults @ ys) \<and> length ys \<le> 40"
proof -
  define xs where "xs = (case existing of Some xs \<Rightarrow> xs | None \<Rightarrow> [])"
  obtain ys where ys: "new_Set (defaults @ xs) = defaults @ ys" and d: "distinct (defaults @ ys)"
    using new_Set_defaults_append by blast
  have "buildUrlHistory existing = defaults @ take 40 ys"
    by (simp add: buildUrlHistory_def xs_def [symmetric] ys length_defaults)
  moreover have "distinct (defaults @ take 40 ys)"
    using d by (auto dest: in_set_takeD)
  ultimately show ?thesis by auto
qed

lemma new_Set_fixed:
  assumes "distinct (defaults @ ys)"
  shows "new_Set (defaults @ defaults @ ys) = defaults @ ys"
proof -
  have "foldl Set_add [] defaults = defaults"
    using foldl_Set_add_fresh [of "[]" defaults] distinct_defaults by simp
  moreover have "foldl Set_add defaults defaults = defaults"
    by (rule foldl_Set_add_known) simp
  moreover have "foldl Set_add defaults ys = defaults @ ys"
    using assms by (rule foldl_Set_add_fresh)
  ultimately show ?thesis by (simp add: new_Set_def)
qed

subsection \<open>Properties of the History Builder\<close>

text \<open>
  Claim C6. \<open>buildUrlHistory\<close> is idempotent: for every input, a list or not, feeding the
  list it returns back in returns that same list.
\<close>

theorem buildUrlHistory_idempotent:
  "buildUrlHistory (Some (buildUrlHistory existing)) = buildUrlHistory existing"
proof -
  obtain ys where r: "buildUrlHistory existing = defaults @ ys"
    and d: "distinct (defaults @ ys)" and n: "length ys \<le> 40"
    using buildUrlHistory_shape by blast
  have "buildUrlHistory (Some (defaults @ ys)) = take 50 (new_Set (defaults @ defaults @ ys))"
    by (simp add: buildUrlHistory_def)
  also have "\<dots> = take 50 (defaults @ ys)"
    using d by (simp only: new_Set_fixed)
  also have "\<dots> = defaults @ ys"
    using n by (simp add: length_defaults)
  finally show ?thesis by (simp only: r)
qed

text \<open>
  Claim C7. For every input, the list \<open>buildUrlHistory\<close> returns has at most 50 elements
  and its first ten elements are the ten default URLs, in their order.
\<close>

theorem buildUrlHistory_cap_and_defaults:
  "length (buildUrlHistory existing) \<le> 50 \<and>
   take 10 (buildUrlHistory existing) = defaults \<and>
   length defaults = 10 \<and>
   set defaults \<subseteq> set (buildUrlHistory existing)"
proof -
  obtain ys where r: "buildUrlHistory existing = defaults @ ys" and n: "length ys \<le> 40"
    using buildUrlHistory_shape by blast
  show ?thesis
    using n by (simp add: r length_defaults)
qed

subsection \<open>Facts about the Merge Engine\<close>

lemma update_fresh_append:
  "k \<notin> fst ` set al \<Longrightarrow> AList.update k v al = al @ [(k, v)]"
  by (induction al) auto

lemma foldl_category_step:
  assumes "distinct (map fst cs)" and "fst ` set cs \<inter> fst ` set (categories out) = {}"
  shows "foldl (\<lambda>out (cat, def). out\<lparr>categories := AList.update cat (f cat def) (categories out)\<rparr>) out cs
       = out\<lparr>categories := categories out @ map (\<lambda>(cat, def). (cat, f cat def)) cs\<rparr>"
  using assms
proof (induction cs arbitrary: out)
  case Nil
  then show ?case by simp
next
  case (Cons c cs)
  obtain cat d where c: "c = (cat, d)" by (cases c)
  from Cons.prems c have fresh: "cat \<notin> fst ` set (categories out)" by auto
  let ?out' = "out\<lparr>categories := categories out @ [(cat, f cat d)]\<rparr>"
  have d': "distinct (map fst cs)" using Cons.prems by simp
  have disj: "fst ` set cs \<inter> fst ` set (categories ?out') = {}"
    using Cons.prems c by auto
  show ?case
    using Cons.IH [OF d' disj] fresh by (simp add: c update_fresh_append)
qed

lemma CATEGORIES_keys:
  "map fst CATEGORIES =
    [''news'', ''technology'', ''science'', ''history'', ''sports'', ''music'', ''entertainment'',
     ''nature'', ''cooking'', ''travel'', ''politics'', ''business'', ''health'', ''kids'',
     ''animation'', ''general'']"
  by (simp add: CATEGORIES_def)

lemma distinct_CATEGORIES: "distinct (map fst CATEGORIES)"
  by (simp add: CATEGORIES_keys)

lemma mergeAll_categories:
  "categories (mergeAll now iptvByGroup ytByCategory tmdbByCategory custom user) =
     map (\<lambda>(cat, def). (cat, filter_seen [] (category_entries iptvByGroup ytByCategory tmdbByCategory custom user cat def)))
       CATEGORIES"
  unfolding mergeAll_def Let_def
  by (subst foldl_category_step) (simp_all add: distinct_CATEGORIES)

lemma set_Set_add: "set (Set_add s x) = insert x (set s)"
  by (auto simp: Set_add_def)

lemma filter_seen_member:
  "e \<in> set (filter_seen seen es) \<Longrightarrow>
     e \<in> set es \<and> (\<exists>u. url e = Some u \<and> u \<noteq> [] \<and> u \<notin> set seen)"
proof (induction es arbitrary: seen)
  case Nil
  then show ?case by simp
next
  case (Cons a es)
  show ?case
  proof (cases "url a")
    case None
    then show ?thesis using Cons by auto
  next
    case (Some v)
    show ?thesis
    proof (cases "v = [] \<or> v \<in> set seen")
      case True
      then show ?thesis using Some Cons by auto
    next
      case False
      with Some Cons.prems have "e = a \<or> e \<in> set (filter_seen (Set_add seen v) es)"
        by auto
      then show ?thesis
      proof
        assume "e = a"
        then show ?thesis using Some False by auto
      next
        assume "e \<in> set (filter_seen (Set_add seen v) es)"
        from Cons.IH [OF this] show ?thesis by (auto simp: set_Set_add)
      qed
    qed
  qed
qed

lemma filter_seen_distinct:
  "distinct (map url (filter_seen seen es))"
proof (induction es arbitrary: seen)
  case Nil
  then show ?case by simp
next
  case (Cons e es)
  show ?case
  proof (cases "url e")
    case None
    then show ?thesis using Cons.IH by simp
  next
    case (Some u)
    have "Some u \<notin> url ` set (filter_seen (Set_add seen u) es)"
    proof
      assume "Some u \<in> url ` set (filter_seen (Set_add seen u) es)"
      then obtain x where x: "x \<in> set (filter_seen (Set_add seen u) es)" and ux: "url x = Some u"
        by force
      from filter_seen_member [OF x] ux show False by (auto simp: set_Set_add)
    qed
    then show ?thesis using Some Cons.IH by simp
  qed
qed

lemma filter_seen_first:
  assumes "u \<noteq> []"
  shows "filter (\<lambda>e. url e = Some u) (filter_seen seen es) =
     (if u \<in> set seen then []
      else case find (\<lambda>e. url e = Some u) es of None \<Rightarrow> [] | Some e \<Rightarrow> [e])"
  using assms
proof (induction es arbitrary: seen)
  case Nil
  then show ?case by simp
next
  case (Cons e es)
  show ?case
  proof (cases "url e")
    case None
    then show ?thesis using Cons by simp
  next
    case (Some v)
    then show ?thesis using Cons by (auto simp: set_Set_add)
  qed
qed

lemma map_of_map_distinct:
  "distinct (map fst xs) \<Longrightarrow> (k, v) \<in> set xs \<Longrightarrow>
     map_of (map (\<lambda>(c, d). (c, f c d)) xs) k = Some (f k v)"
  by (induction xs) (auto simp: rev_image_eqI)

lemma map_of_map_Some:
  "map_of (map (\<lambda>(c, d). (c, f c d)) xs) k = Some y \<Longrightarrow> \<exists>d. (k, d) \<in> set xs \<and> y = f k d"
  by (induction xs) (auto split: if_splits)

lemma mergeAll_lookup:
  assumes "(cat, def) \<in> set CATEGORIES"
  shows "map_of (categories (mergeAll now iptvByGroup ytByCategory tmdbByCategory custom user)) cat =
     Some (filter_seen [] (category_entries iptvByGroup ytByCategory tmdbByCategory custom user cat def))"
  unfolding mergeAll_categories
  using distinct_CATEGORIES assms by (rule map_of_map_distinct)

lemmas merge_eval =
  CATEGORIES_def category_entries_def iptv_entries_def yt_entries_def tmdb_entries_def
  custom_entries_def user_entries_def or_empty_def with_category_def with_category_source_def
  url_def Set_add_def Let_def

lemma find_append_case:
  "find P (xs @ ys) = (case find P xs of Some x \<Rightarrow> Some x | None \<Rightarrow> find P ys)"
  by (induction xs) auto

lemma mergeAll_keys:
  "map fst (categories (mergeAll now iptvByGroup ytByCategory tmdbByCategory custom user)) = map fst CATEGORIES"
  by (simp add: mergeAll_categories case_prod_unfold comp_def)

lemma iptv_entries_empty: "iptv_entries [] cat def = []"
proof -
  have "foldl (\<lambda>entries group. entries @ []) acc gs = acc" for acc :: "entry list" and gs :: "string list"
    by (induction gs arbitrary: acc) auto
  then show ?thesis by (simp add: iptv_entries_def or_empty_def)
qed

lemma foldl_append_concat:
  "foldl (\<lambda>acc x. acc @ f x) acc xs = acc @ concat (map f xs)"
  by (induction xs arbitrary: acc) auto

lemma iptv_entries_concat:
  "iptv_entries iptvByGroup cat def =
     concat (map (\<lambda>group. map (AList.update ''category'' cat) (take 15 (or_empty (map_of iptvByGroup group))))
       (iptv_groups def))"
proof -
  have "with_category cat = AList.update ''category'' cat"
    by (rule ext) (simp add: with_category_def)
  then show ?thesis
    by (simp add: iptv_entries_def Let_def foldl_append_concat)
qed

lemma category_entries_inputs:
  "category_entries iptvByGroup ytByCategory tmdbByCategory custom user cat def =
     concat (map (\<lambda>group. map (AList.update ''category'' cat) (take 15 (or_empty (map_of iptvByGroup group))))
       (iptv_groups def)) @
     map (AList.update ''category'' cat) (or_empty (map_of ytByCategory cat)) @
     map (AList.update ''category'' cat) (or_empty (map_of tmdbByCategory cat)) @
     map (\<lambda>s. AList.update ''source'' ''custom'' (AList.update ''category'' cat s)) (or_empty (map_of custom cat)) @
     map (\<lambda>s. AList.update ''source'' ''user'' (AList.update ''category'' cat s)) (or_empty (map_of user cat))"
proof -
  have a: "with_category cat = AList.update ''category'' cat"
    by (rule ext) (simp add: with_category_def)
  have b: "with_category_source cat src = (\<lambda>s. AList.update ''source'' src (AList.update ''category'' cat s))"
    for src by (rule ext) (simp add: with_category_source_def)
  show ?thesis
    by (simp add: category_entries_def iptv_entries_concat yt_entries_def tmdb_entries_def
        custom_entries_def user_entries_def Let_def a b)
qed

lemma find_Some_member: "find P xs = Some x \<Longrightarrow> x \<in> set xs \<and> P x"
  by (induction xs) (auto split: if_splits)

lemma find_member_Some: "x \<in> set xs \<Longrightarrow> P x \<Longrightarrow> \<exists>y. find P xs = Some y"
  by (induction xs) auto

lemma concat_map_member:
  "p \<in> set (concat (map (\<lambda>g. map f (h g)) gs)) \<longleftrightarrow> (\<exists>g \<in> set gs. \<exists>s \<in> set (h g). p = f s)"
  by auto

lemma filter_seen_no_blank:
  "filter (\<lambda>e. map_of e ''url'' = None \<or> map_of e ''url'' = Some []) (filter_seen seen es) = []"
proof -
  have "\<not> (map_of x ''url'' = None \<or> map_of x ''url'' = Some [])" if "x \<in> set (filter_seen seen es)" for x
  proof -
    from filter_seen_member [OF that] obtain u where "url x = Some u" and "u \<noteq> []" by blast
    then show ?thesis by (simp add: url_def)
  qed
  then show ?thesis unfolding filter_empty_conv by blast
qed

lemma filter_seen_first_url:
  assumes "u \<noteq> []"
  shows "filter (\<lambda>e. map_of e ''url'' = Some u) (filter_seen [] cs) =
     (case find (\<lambda>e. map_of e ''url'' = Some u) cs of None \<Rightarrow> [] | Some e \<Rightarrow> [e])"
  using filter_seen_first [OF assms, of "[]" cs] by (simp add: url_def)

lemma filter_seen_first_block:
  assumes "u \<noteq> []" and "x \<in> set a" and "map_of x ''url'' = Some u"
  shows "\<exists>p. p \<in> set a \<and> filter (\<lambda>e. map_of e ''url'' = Some u) (filter_seen [] (a @ b)) = [p]"
proof -
  from assms(2,3) have "\<exists>p. find (\<lambda>e. map_of e ''url'' = Some u) a = Some p"
    by (rule find_member_Some)
  then obtain p where p: "find (\<lambda>e. map_of e ''url'' = Some u) a = Some p" ..
  then have "p \<in> set a" by (simp add: find_Some_member)
  moreover have "filter (\<lambda>e. map_of e ''url'' = Some u) (filter_seen [] (a @ b)) = [p]"
    using p by (simp add: filter_seen_first_url [OF assms(1)] find_append_case)
  ultimately show ?thesis by blast
qed

subsection \<open>Properties of the Merge Engine\<close>

text \<open>
  Claim C1. For every run of \<open>mergeAll\<close>, on any fetched and local inputs, every entry
  in any category's list of the Output Document has a non-empty \<open>url\<close>, and within one
  category's list the \<open>url\<close> values are pairwise distinct; so entries whose \<open>url\<close> is
  missing or empty have been discarded.
\<close>

theorem mergeAll_urls_nonempty_distinct:
  assumes "map_of (categories (mergeAll now iptvByGroup ytByCategory tmdbByCategory custom user)) cat = Some es"
  shows "(\<forall>e \<in> set es. \<exists>u. url e = Some u \<and> u \<noteq> []) \<and> distinct (map url es)"
proof -
  from assms [unfolded mergeAll_categories]
  have "\<exists>d. (cat, d) \<in> set CATEGORIES \<and>
      es = filter_seen [] (category_entries iptvByGroup ytByCategory tmdbByCategory custom user cat d)"
    by (rule map_of_map_Some)
  then obtain d where
    es: "es = filter_seen [] (category_entries iptvByGroup ytByCategory tmdbByCategory custom user cat d)"
    by blast
  have "\<forall>e \<in> set es. \<exists>u. url e = Some u \<and> u \<noteq> []"
    unfolding es using filter_seen_member by blast
  moreover have "distinct (map url es)"
    unfolding es by (rule filter_seen_distinct)
  ultimately show ?thesis by simp
qed

text \<open>
  The theorem at a concrete run: the custom file repeats a playlist URL and holds an
  entry with an empty URL, the playlist holds an entry with none.
\<close>

theorem mergeAll_urls_nonempty_distinct_witness:
  "map_of (categories (mergeAll ''2024-01-01T00:00:00.000Z''
      [(''News'', [[(''name'', ''A''), (''url'', ''http://a'')], [(''name'', ''no url'')]])]
      [] []
      [(''news'', [[(''name'', ''A again''), (''url'', ''http://a'')], [(''name'', ''B''), (''url'', [])],
                   [(''name'', ''C''), (''url'', ''http://c'')]])]
      [])) ''news''
    = Some [[(''name'', ''A''), (''url'', ''http://a''), (''category'', ''news'')],
            [(''name'', ''C''), (''url'', ''http://c''), (''category'', ''news''), (''source'', ''custom'')]]
   \<and> distinct (map url [[(''name'', ''A''), (''url'', ''http://a''), (''category'', ''news'')],
            [(''name'', ''C''), (''url'', ''http://c''), (''category'', ''news''), (''source'', ''custom'')]])"
proof -
  have h: "map_of (categories (mergeAll ''2024-01-01T00:00:00.000Z''
      [(''News'', [[(''name'', ''A''), (''url'', ''http://a'')], [(''name'', ''no url'')]])]
      [] []
      [(''news'', [[(''name'', ''A again''), (''url'', ''http://a'')], [(''name'', ''B''), (''url'', [])],
                   [(''name'', ''C''), (''url'', ''http://c'')]])]
      [])) ''news''
    = Some [[(''name'', ''A''), (''url'', ''http://a''), (''category'', ''news'')],
            [(''name'', ''C''), (''url'', ''http://c''), (''category'', ''news''), (''source'', ''custom'')]]"
    by (simp add: mergeAll_categories merge_eval)
  from mergeAll_urls_nonempty_distinct [OF h] h show ?thesis by blast
qed

text \<open>
  Claim C2, as the code has it. The candidates of a category are, in this order: for
  each playlist group of the category the first 15 streams of the group, then the video
  search entries, the metadata entries, the curated entries and the user-submitted
  entries. For every category and every non-empty URL, of the candidates with that URL
  exactly one is kept, the first in that order; candidates whose URL is missing or empty
  are all dropped. In particular, when one of the first 15 streams of a playlist group of
  the category has the URL, the one entry kept with that URL is such a playlist stream,
  so a curated entry with the same URL is dropped.
\<close>

theorem mergeAll_first_seen_wins:
  assumes "(cat, def) \<in> set CATEGORIES"
  shows "\<exists>es. map_of (categories (mergeAll now iptvByGroup ytByCategory tmdbByCategory custom user)) cat = Some es \<and>
    (\<forall>u. u \<noteq> [] \<longrightarrow>
       filter (\<lambda>e. map_of e ''url'' = Some u) es =
         (case find (\<lambda>e. map_of e ''url'' = Some u)
            (concat (map (\<lambda>group. map (AList.update ''category'' cat)
                 (take 15 (or_empty (map_of iptvByGroup group)))) (iptv_groups def)) @
             map (AList.update ''category'' cat) (or_empty (map_of ytByCategory cat)) @
             map (AList.update ''category'' cat) (or_empty (map_of tmdbByCategory cat)) @
             map (\<lambda>s. AList.update ''source'' ''custom'' (AList.update ''category'' cat s))
               (or_empty (map_of custom cat)) @
             map (\<lambda>s. AList.update ''source'' ''user'' (AList.update ''category'' cat s))
               (or_empty (map_of user cat)))
          of None \<Rightarrow> [] | Some e \<Rightarrow> [e])) \<and>
    filter (\<lambda>e. map_of e ''url'' = None \<or> map_of e ''url'' = Some []) es = [] \<and>
    (\<forall>u group s. u \<noteq> [] \<and> group \<in> set (iptv_groups def) \<and>
       s \<in> set (take 15 (or_empty (map_of iptvByGroup group))) \<and> map_of s ''url'' = Some u \<longrightarrow>
       (\<exists>group' s'. group' \<in> set (iptv_groups def) \<and>
          s' \<in> set (take 15 (or_empty (map_of iptvByGroup group'))) \<and>
          filter (\<lambda>e. map_of e ''url'' = Some u) es = [AList.update ''category'' cat s']))"
proof -
  define iptv where "iptv = concat (map (\<lambda>group. map (AList.update ''category'' cat)
                 (take 15 (or_empty (map_of iptvByGroup group)))) (iptv_groups def))"
  define rest where "rest = map (AList.update ''category'' cat) (or_empty (map_of ytByCategory cat)) @
             map (AList.update ''category'' cat) (or_empty (map_of tmdbByCategory cat)) @
             map (\<lambda>s. AList.update ''source'' ''custom'' (AList.update ''category'' cat s))
               (or_empty (map_of custom cat)) @
             map (\<lambda>s. AList.update ''source'' ''user'' (AList.update ''category'' cat s))
               (or_empty (map_of user cat))"
  define es where "es = filter_seen [] (iptv @ rest)"
  have cands: "category_entries iptvByGroup ytByCategory tmdbByCategory custom user cat def = iptv @ rest"
    unfolding iptv_def rest_def by (rule category_entries_inputs)
  have lookup: "map_of (categories (mergeAll now iptvByGroup ytByCategory tmdbByCategory custom user)) cat = Some es"
    unfolding es_def cands [symmetric] using assms by (rule mergeAll_lookup)
  have first: "\<forall>u. u \<noteq> [] \<longrightarrow> filter (\<lambda>e. map_of e ''url'' = Some u) es =
      (case find (\<lambda>e. map_of e ''url'' = Some u) (iptv @ rest) of None \<Rightarrow> [] | Some e \<Rightarrow> [e])"
  proof (intro allI impI)
    fix u :: string assume "u \<noteq> []"
    then show "filter (\<lambda>e. map_of e ''url'' = Some u) es =
      (case find (\<lambda>e. map_of e ''url'' = Some u) (iptv @ rest) of None \<Rightarrow> [] | Some e \<Rightarrow> [e])"
      unfolding es_def by (rule filter_seen_first_url)
  qed
  have none: "filter (\<lambda>e. map_of e ''url'' = None \<or> map_of e ''url'' = Some []) es = []"
    unfolding es_def by (rule filter_seen_no_blank)
  have playlist: "\<exists>group' s'. group' \<in> set (iptv_groups def) \<and>
          s' \<in> set (take 15 (or_empty (map_of iptvByGroup group'))) \<and>
          filter (\<lambda>e. map_of e ''url'' = Some u) es = [AList.update ''category'' cat s']"
    if u: "u \<noteq> []" and g: "group \<in> set (iptv_groups def)"
      and s: "s \<in> set (take 15 (or_empty (map_of iptvByGroup group)))" and su: "map_of s ''url'' = Some u"
    for u group s
  proof -
    have "AList.update ''category'' cat s \<in> set iptv"
      unfolding iptv_def concat_map_member using g s by blast
    moreover have "map_of (AList.update ''category'' cat s) ''url'' = Some u"
      using su by (simp add: update_conv')
    ultimately have "\<exists>p. p \<in> set iptv \<and> filter (\<lambda>e. map_of e ''url'' = Some u) (filter_seen [] (iptv @ rest)) = [p]"
      by (rule filter_seen_first_block [OF u])
    then obtain p where p: "p \<in> set iptv" and only: "filter (\<lambda>e. map_of e ''url'' = Some u) es = [p]"
      unfolding es_def by blast
    from p obtain group' s' where "group' \<in> set (iptv_groups def)"
      "s' \<in> set (take 15 (or_empty (map_of iptvByGroup group')))" "p = AList.update ''category'' cat s'"
      unfolding iptv_def concat_map_member by blast
    with only show ?thesis by (intro exI [of _ group'] exI [of _ s']) simp
  qed
  have playlist': "\<forall>u group s. u \<noteq> [] \<and> group \<in> set (iptv_groups def) \<and>
       s \<in> set (take 15 (or_empty (map_of iptvByGroup group))) \<and> map_of s ''url'' = Some u \<longrightarrow>
       (\<exists>group' s'. group' \<in> set (iptv_groups def) \<and>
          s' \<in> set (take 15 (or_empty (map_of iptvByGroup group'))) \<and>
          filter (\<lambda>e. map_of e ''url'' = Some u) es = [AList.update ''category'' cat s'])"
  proof (intro allI impI, elim conjE)
    fix u group s
    assume "u \<noteq> []" "group \<in> set (iptv_groups def)"
      "s \<in> set (take 15 (or_empty (map_of iptvByGroup group)))" "map_of s ''url'' = Some u"
    then show "\<exists>group' s'. group' \<in> set (iptv_groups def) \<and>
          s' \<in> set (take 15 (or_empty (map_of iptvByGroup group'))) \<and>
          filter (\<lambda>e. map_of e ''url'' = Some u) es = [AList.update ''category'' cat s']"
      by (rule playlist)
  qed
  show ?thesis
  proof (rule exI [where x = es], intro conjI)
    show "map_of (categories (mergeAll now iptvByGroup ytByCategory tmdbByCategory custom user)) cat = Some es"
      by (rule lookup)
    show "filter (\<lambda>e. map_of e ''url'' = None \<or> map_of e ''url'' = Some []) es = []"
      by (rule none)
    show "\<forall>u. u \<noteq> [] \<longrightarrow>
       filter (\<lambda>e. map_of e ''url'' = Some u) es =
         (case find (\<lambda>e. map_of e ''url'' = Some u)
            (concat (map (\<lambda>group. map (AList.update ''category'' cat)
                 (take 15 (or_empty (map_of iptvByGroup group)))) (iptv_groups def)) @
             map (AList.update ''category'' cat) (or_empty (map_of ytByCategory cat)) @
             map (AList.update ''category'' cat) (or_empty (map_of tmdbByCategory cat)) @
             map (\<lambda>s. AList.update ''source'' ''custom'' (AList.update ''category'' cat s))
               (or_empty (map_of custom cat)) @
             map (\<lambda>s. AList.update ''source'' ''user'' (AList.update ''category'' cat s))
               (or_empty (map_of user cat)))
          of None \<Rightarrow> [] | Some e \<Rightarrow> [e])"
      by (rule first [unfolded iptv_def rest_def])
    show "\<forall>u group s. u \<noteq> [] \<and> group \<in> set (iptv_groups def) \<and>
       s \<in> set (take 15 (or_empty (map_of iptvByGroup group))) \<and> map_of s ''url'' = Some u \<longrightarrow>
       (\<exists>group' s'. group' \<in> set (iptv_groups def) \<and>
          s' \<in> set (take 15 (or_empty (map_of iptvByGroup group'))) \<and>
          filter (\<lambda>e. map_of e ''url'' = Some u) es = [AList.update ''category'' cat s'])"
      by (rule playlist')
  qed
qed

text \<open>
  The theorem at a concrete run in which each source repeats a URL of the source before
  it, and the local files hold an entry with an empty URL and one with none.
\<close>

theorem mergeAll_first_seen_wins_witness:
  "(''news'', \<lparr>iptv_groups = [''News'', ''General''], yt_query = ''news live stream'', tmdb_genre_id = 10763\<rparr>)
      \<in> set CATEGORIES \<and>
   (\<exists>es. map_of (categories (mergeAll ''2024-01-01T00:00:00.000Z''
        [(''News'', [[(''name'', ''A''), (''url'', ''http://a'')]])]
        [(''news'', [[(''url'', ''http://a'')], [(''url'', ''http://b'')]])]
        [(''news'', [[(''url'', ''http://b'')], [(''url'', ''http://c'')]])]
        [(''news'', [[(''url'', ''http://c'')], [(''url'', ''http://d'')], [(''url'', [])]])]
        [(''news'', [[(''url'', ''http://d'')], [(''url'', ''http://e'')], [(''name'', ''E'')]])])) ''news'' = Some es \<and>
      es = [[(''name'', ''A''), (''url'', ''http://a''), (''category'', ''news'')],
            [(''url'', ''http://b''), (''category'', ''news'')],
            [(''url'', ''http://c''), (''category'', ''news'')],
            [(''url'', ''http://d''), (''category'', ''news''), (''source'', ''custom'')],
            [(''url'', ''http://e''), (''category'', ''news''), (''source'', ''user'')]] \<and>
      filter (\<lambda>e. map_of e ''url'' = Some ''http://a'') es =
        [[(''name'', ''A''), (''url'', ''http://a''), (''category'', ''news'')]] \<and>
      filter (\<lambda>e. map_of e ''url'' = Some ''http://b'') es = [[(''url'', ''http://b''), (''category'', ''news'')]] \<and>
      filter (\<lambda>e. map_of e ''url'' = Some ''http://c'') es = [[(''url'', ''http://c''), (''category'', ''news'')]] \<and>
      filter (\<lambda>e. map_of e ''url'' = Some ''http://d'') es =
        [[(''url'', ''http://d''), (''category'', ''news''), (''source'', ''custom'')]] \<and>
      filter (\<lambda>e. map_of e ''url'' = None \<or> map_of e ''url'' = Some []) es = [])"
proof -
  let ?def = "\<lparr>iptv_groups = [''News'', ''General''], yt_query = ''news live stream'', tmdb_genre_id = 10763\<rparr>"
  let ?out = "mergeAll ''2024-01-01T00:00:00.000Z''
        [(''News'', [[(''name'', ''A''), (''url'', ''http://a'')]])]
        [(''news'', [[(''url'', ''http://a'')], [(''url'', ''http://b'')]])]
        [(''news'', [[(''url'', ''http://b'')], [(''url'', ''http://c'')]])]
        [(''news'', [[(''url'', ''http://c'')], [(''url'', ''http://d'')], [(''url'', [])]])]
        [(''news'', [[(''url'', ''http://d'')], [(''url'', ''http://e'')], [(''name'', ''E'')]])]"
  let ?full = "[[(''name'', ''A''), (''url'', ''http://a''), (''category'', ''news'')],
            [(''url'', ''http://b''), (''category'', ''news'')],
            [(''url'', ''http://c''), (''category'', ''news'')],
            [(''url'', ''http://d''), (''category'', ''news''), (''source'', ''custom'')],
            [(''url'', ''http://e''), (''category'', ''news''), (''source'', ''user'')]]"
  have c: "(''news'', ?def) \<in> set CATEGORIES"
    by (simp add: CATEGORIES_def)
  have run: "map_of (categories ?out) ''news'' = Some ?full"
    by (simp add: mergeAll_categories merge_eval)
  from mergeAll_first_seen_wins [OF c, of "''2024-01-01T00:00:00.000Z''"
        "[(''News'', [[(''name'', ''A''), (''url'', ''http://a'')]])]"
        "[(''news'', [[(''url'', ''http://a'')], [(''url'', ''http://b'')]])]"
        "[(''news'', [[(''url'', ''http://b'')], [(''url'', ''http://c'')]])]"
        "[(''news'', [[(''url'', ''http://c'')], [(''url'', ''http://d'')], [(''url'', [])]])]"
        "[(''news'', [[(''url'', ''http://d'')], [(''url'', ''http://e'')], [(''name'', ''E'')]])]"]
  obtain es where look: "map_of (categories ?out) ''news'' = Some es"
    and first: "\<And>u. u \<noteq> [] \<Longrightarrow> filter (\<lambda>e. map_of e ''url'' = Some u) es =
         (case find (\<lambda>e. map_of e ''url'' = Some u)
            [[(''name'', ''A''), (''url'', ''http://a''), (''category'', ''news'')],
             [(''url'', ''http://a''), (''category'', ''news'')],
             [(''url'', ''http://b''), (''category'', ''news'')],
             [(''url'', ''http://b''), (''category'', ''news'')],
             [(''url'', ''http://c''), (''category'', ''news'')],
             [(''url'', ''http://c''), (''category'', ''news''), (''source'', ''custom'')],
             [(''url'', ''http://d''), (''category'', ''news''), (''source'', ''custom'')],
             [(''url'', []), (''category'', ''news''), (''source'', ''custom'')],
             [(''url'', ''http://d''), (''category'', ''news''), (''source'', ''user'')],
             [(''url'', ''http://e''), (''category'', ''news''), (''source'', ''user'')],
             [(''name'', ''E''), (''category'', ''news''), (''source'', ''user'')]]
          of None \<Rightarrow> [] | Some e \<Rightarrow> [e])"
    and blank: "filter (\<lambda>e. map_of e ''url'' = None \<or> map_of e ''url'' = Some []) es = []"
    by (simp add: or_empty_def) blast
  from look run have es: "es = ?full" by simp
  have "filter (\<lambda>e. map_of e ''url'' = Some ''http://a'') es =
        [[(''name'', ''A''), (''url'', ''http://a''), (''category'', ''news'')]]"
    and "filter (\<lambda>e. map_of e ''url'' = Some ''http://b'') es = [[(''url'', ''http://b''), (''category'', ''news'')]]"
    and "filter (\<lambda>e. map_of e ''url'' = Some ''http://c'') es = [[(''url'', ''http://c''), (''category'', ''news'')]]"
    and "filter (\<lambda>e. map_of e ''url'' = Some ''http://d'') es =
        [[(''url'', ''http://d''), (''category'', ''news''), (''source'', ''custom'')]]"
    by (simp_all add: first)
  with c look es blank show ?thesis by (intro conjI exI [of _ es]) simp_all
qed

text \<open>
  Claim C2 as stated lets the playlist entry win whenever a URL is both under a playlist
  group and under a curated override. A stream beyond the 15th of its group is not a
  candidate: with the URL at the 16th stream of \<open>News\<close> and in the curated file, the
  curated entry is the one kept.
\<close>

theorem mergeAll_sixteenth_stream_counterexample:
  "[(''url'', ''http://x'')] \<in> set (or_empty (map_of
      [(''News'', map (\<lambda>n. [(''url'', ''http://s'' @ n)])
          [''01'', ''02'', ''03'', ''04'', ''05'', ''06'', ''07'', ''08'', ''09'', ''10'', ''11'', ''12'', ''13'', ''14'', ''15''] @
          [[(''url'', ''http://x'')]])] ''News'')) \<and>
   [(''url'', ''http://x'')] \<in> set (or_empty (map_of [(''news'', [[(''url'', ''http://x'')]])] ''news'')) \<and>
   map_of (categories (mergeAll ''2024-01-01T00:00:00.000Z''
      [(''News'', map (\<lambda>n. [(''url'', ''http://s'' @ n)])
          [''01'', ''02'', ''03'', ''04'', ''05'', ''06'', ''07'', ''08'', ''09'', ''10'', ''11'', ''12'', ''13'', ''14'', ''15''] @
          [[(''url'', ''http://x'')]])]
      [] []
      [(''news'', [[(''url'', ''http://x'')]])]
      [])) ''news'' =
     Some (map (\<lambda>n. [(''url'', ''http://s'' @ n), (''category'', ''news'')])
          [''01'', ''02'', ''03'', ''04'', ''05'', ''06'', ''07'', ''08'', ''09'', ''10'', ''11'', ''12'', ''13'', ''14'', ''15''] @
          [[(''url'', ''http://x''), (''category'', ''news''), (''source'', ''custom'')]])"
  by (simp add: mergeAll_categories merge_eval)

text \<open>
  Claim C3. When the three fetched mappings are empty, the Output Document has exactly
  the 16 category keys of the table, in its order, and each category's list is the
  deduplicated list of the category's curated entries followed by its user-submitted
  entries, each with \<open>category\<close> set to the key and \<open>source\<close> set to \<open>custom\<close> or \<open>user\<close>;
  the list is empty when the local files have nothing for the category.
\<close>

theorem mergeAll_local_only:
  "map fst (categories (mergeAll now [] [] [] custom user)) =
     [''news'', ''technology'', ''science'', ''history'', ''sports'', ''music'', ''entertainment'',
      ''nature'', ''cooking'', ''travel'', ''politics'', ''business'', ''health'', ''kids'',
      ''animation'', ''general''] \<and>
   (\<forall>cat \<in> set (map fst CATEGORIES).
      map_of (categories (mergeAll now [] [] [] custom user)) cat =
        Some (filter_seen []
          (map (\<lambda>s. AList.update ''source'' ''custom'' (AList.update ''category'' cat s)) (or_empty (map_of custom cat)) @
           map (\<lambda>s. AList.update ''source'' ''user'' (AList.update ''category'' cat s)) (or_empty (map_of user cat)))))"
proof -
  have "map_of (categories (mergeAll now [] [] [] custom user)) cat =
        Some (filter_seen []
          (map (\<lambda>s. AList.update ''source'' ''custom'' (AList.update ''category'' cat s)) (or_empty (map_of custom cat)) @
           map (\<lambda>s. AList.update ''source'' ''user'' (AList.update ''category'' cat s)) (or_empty (map_of user cat))))"
    if "cat \<in> set (map fst CATEGORIES)" for cat
  proof -
    from that obtain d where "(cat, d) \<in> set CATEGORIES" by auto
    then have "map_of (categories (mergeAll now [] [] [] custom user)) cat =
        Some (filter_seen [] (category_entries [] [] [] custom user cat d))"
      by (rule mergeAll_lookup)
    moreover have "with_category_source cat src = (\<lambda>s. AList.update ''source'' src (AList.update ''category'' cat s))"
      for src by (rule ext) (simp add: with_category_source_def)
    ultimately show ?thesis
      by (simp add: category_entries_def iptv_entries_empty yt_entries_def tmdb_entries_def
          custom_entries_def user_entries_def or_empty_def)
  qed
  then show ?thesis
    by (simp only: mergeAll_keys CATEGORIES_keys) simp
qed

text \<open>The theorem at concrete local files: one category with entries, one without.\<close>

theorem mergeAll_local_only_witness:
  "map_of (categories (mergeAll ''2024-01-01T00:00:00.000Z'' [] [] []
        [(''kids'', [[(''name'', ''K''), (''url'', ''http://k''), (''source'', ''me'')]])]
        [(''kids'', [[(''url'', ''http://k'')], [(''url'', ''http://u'')]])])) ''kids'' =
     Some [[(''name'', ''K''), (''url'', ''http://k''), (''source'', ''custom''), (''category'', ''kids'')],
           [(''url'', ''http://u''), (''category'', ''kids''), (''source'', ''user'')]] \<and>
   map_of (categories (mergeAll ''2024-01-01T00:00:00.000Z'' [] [] []
        [(''kids'', [[(''name'', ''K''), (''url'', ''http://k''), (''source'', ''me'')]])]
        [(''kids'', [[(''url'', ''http://k'')], [(''url'', ''http://u'')]])])) ''music'' = Some []"
  using mergeAll_local_only [of "''2024-01-01T00:00:00.000Z''"
        "[(''kids'', [[(''name'', ''K''), (''url'', ''http://k''), (''source'', ''me'')]])]"
        "[(''kids'', [[(''url'', ''http://k'')], [(''url'', ''http://u'')]])]"]
  by (simp add: merge_eval)

text \<open>
  Claim C10. Deduplication is per category: every category's list is the filter run from
  an empty \<open>seen\<close> set over that category's own candidates, and there are inputs for which
  one URL is in the final lists of two different categories: a stream of the playlist
  group \<open>Science / Technology\<close> is kept under \<open>technology\<close> and under \<open>science\<close>.
\<close>

theorem mergeAll_dedup_per_category:
  "(\<forall>iptvByGroup ytByCategory tmdbByCategory custom user.
      categories (mergeAll now iptvByGroup ytByCategory tmdbByCategory custom user) =
        map (\<lambda>(cat, def). (cat, filter_seen [] (category_entries iptvByGroup ytByCategory tmdbByCategory custom user cat def)))
          CATEGORIES) \<and>
   map_of (categories (mergeAll now [(''Science / Technology'', [[(''name'', ''S''), (''url'', ''http://s'')]])] [] [] [] []))
      ''technology'' = Some [[(''name'', ''S''), (''url'', ''http://s''), (''category'', ''technology'')]] \<and>
   map_of (categories (mergeAll now [(''Science / Technology'', [[(''name'', ''S''), (''url'', ''http://s'')]])] [] [] [] []))
      ''science'' = Some [[(''name'', ''S''), (''url'', ''http://s''), (''category'', ''science'')]] \<and>
   url [(''name'', ''S''), (''url'', ''http://s''), (''category'', ''technology'')] =
     url [(''name'', ''S''), (''url'', ''http://s''), (''category'', ''science'')]"
proof -
  let ?out = "mergeAll now [(''Science / Technology'', [[(''name'', ''S''), (''url'', ''http://s'')]])] [] [] [] []"
  have "map_of (categories ?out) ''technology'' =
      Some [[(''name'', ''S''), (''url'', ''http://s''), (''category'', ''technology'')]]"
    by (simp add: mergeAll_categories merge_eval)
  moreover have "map_of (categories ?out) ''science'' =
      Some [[(''name'', ''S''), (''url'', ''http://s''), (''category'', ''science'')]]"
    by (simp add: mergeAll_categories merge_eval)
  moreover have "url [(''name'', ''S''), (''url'', ''http://s''), (''category'', ''technology'')] =
     url [(''name'', ''S''), (''url'', ''http://s''), (''category'', ''science'')]"
    by (simp add: url_def)
  ultimately show ?thesis
    by (simp only: mergeAll_categories simp_thms)
qed

subsection \<open>Facts about the JSON reader\<close>

lemmas json_eval =
  JSON_parse_def lex_char_def lex_idle_def finish_lexeme_def parse_token_def start_value_def
  close_value_def close_array_def close_object_def take_key_def valid_number_def number_int_def
  number_frac_def number_exp_def is_digit_def is_letter_def is_json_space_def is_number_char_def
  hex_value_def escape_value_def

lemma JSON_parse_history_list:
  "JSON_parse (''['' @ [CHR 0x22] @ ''https://en.wikipedia.org/wiki/Television'' @ [CHR 0x22] @ '']'') =
     Inr (JArray [JString (map of_char ''https://en.wikipedia.org/wiki/Television'')])"
  by (simp add: json_eval)

lemma JSON_parse_empty_object: "JSON_parse ''{}'' = Inr (JObject [])"
  by (simp add: json_eval)

lemma JSON_parse_truncated: "JSON_parse ''{'' = Inl ''SyntaxError''"
  by (simp add: json_eval)

subsection \<open>Properties of the Local Loader\<close>

text \<open>
  Claim C8, as the code has it. For every file name, file system and reader:
  when the file does not exist \<open>loadLocal\<close> returns the empty mapping and writes nothing;
  when its content parses, \<open>loadLocal\<close> returns the parsed value as it is and writes
  nothing; when the content fails to parse, or the file cannot be read, it returns the
  empty mapping and writes one warning line. It always returns. The value returned is a
  mapping except when the content parses to a JSON value that is not an object.
\<close>

theorem loadLocal_contract:
  "(\<forall>parse DATA_DIR fs filename.
      fs (path_join DATA_DIR filename) = None \<longrightarrow>
      loadLocal parse DATA_DIR fs filename = (JObject [], [])) \<and>
   (\<forall>parse DATA_DIR fs filename content v.
      fs (path_join DATA_DIR filename) = Some (Readable content) \<and> parse content = Inr v \<longrightarrow>
      loadLocal parse DATA_DIR fs filename = (v, [])) \<and>
   (\<forall>parse DATA_DIR fs filename content message.
      fs (path_join DATA_DIR filename) = Some (Readable content) \<and> parse content = Inl message \<longrightarrow>
      loadLocal parse DATA_DIR fs filename =
        (JObject [], [''  WARN: could not parse '' @ filename @ '': '' @ message])) \<and>
   (\<forall>parse DATA_DIR fs filename message.
      fs (path_join DATA_DIR filename) = Some (Unreadable message) \<longrightarrow>
      loadLocal parse DATA_DIR fs filename =
        (JObject [], [''  WARN: could not parse '' @ filename @ '': '' @ message])) \<and>
   (\<forall>parse DATA_DIR fs filename.
      is_mapping (fst (loadLocal parse DATA_DIR fs filename)) =
        (case fs (path_join DATA_DIR filename) of
           Some (Readable content) \<Rightarrow> (case parse content of Inr v \<Rightarrow> is_mapping v | Inl message \<Rightarrow> True)
         | _ \<Rightarrow> True))"
  by (simp add: loadLocal_def split: option.split file_node.split sum.split)

text \<open>
  The theorem at four concrete file systems: no file, a file holding \<open>{}\<close>, a file
  holding a truncated object, and a directory in the file's place.
\<close>

theorem loadLocal_contract_witness:
  "loadLocal JSON_parse ''/repo/data'' Map.empty ''user_channels.json'' = (JObject [], []) \<and>
   loadLocal JSON_parse ''/repo/data'' [''/repo/data/user_channels.json'' \<mapsto> Readable ''{}'']
      ''user_channels.json'' = (JObject [], []) \<and>
   loadLocal JSON_parse ''/repo/data'' [''/repo/data/user_channels.json'' \<mapsto> Readable ''{'']
      ''user_channels.json'' =
      (JObject [], [''  WARN: could not parse user_channels.json: SyntaxError'']) \<and>
   loadLocal JSON_parse ''/repo/data'' [''/repo/data/user_channels.json'' \<mapsto> Unreadable ''EISDIR'']
      ''user_channels.json'' =
      (JObject [], [''  WARN: could not parse user_channels.json: EISDIR''])"
proof -
  have p: "path_join ''/repo/data'' ''user_channels.json'' = ''/repo/data/user_channels.json''"
    by (simp add: path_join_def)
  have "loadLocal JSON_parse ''/repo/data'' Map.empty ''user_channels.json'' = (JObject [], [])"
    using loadLocal_contract by simp
  moreover have "loadLocal JSON_parse ''/repo/data'' [''/repo/data/user_channels.json'' \<mapsto> Readable ''{}'']
      ''user_channels.json'' = (JObject [], [])"
    using loadLocal_contract p JSON_parse_empty_object by simp
  moreover have "loadLocal JSON_parse ''/repo/data'' [''/repo/data/user_channels.json'' \<mapsto> Readable ''{'']
      ''user_channels.json'' =
      (JObject [], [''  WARN: could not parse user_channels.json: SyntaxError''])"
    using loadLocal_contract p JSON_parse_truncated by simp
  moreover have "loadLocal JSON_parse ''/repo/data'' [''/repo/data/user_channels.json'' \<mapsto> Unreadable ''EISDIR'']
      ''user_channels.json'' =
      (JObject [], [''  WARN: could not parse user_channels.json: EISDIR''])"
    using loadLocal_contract p by simp
  ultimately show ?thesis by simp
qed

text \<open>
  Claim C8 as stated says that the parsed content comes back as a mapping. The history
  file the script itself writes is a JSON list, and \<open>loadLocal\<close> returns it as a list.
\<close>

theorem loadLocal_mapping_counterexample:
  "\<not> is_mapping (fst (loadLocal JSON_parse ''/repo/data''
      [''/repo/data/url_history.json'' \<mapsto>
         Readable (''['' @ [CHR 0x22] @ ''https://en.wikipedia.org/wiki/Television'' @ [CHR 0x22] @ '']'')]
      ''url_history.json''))"
  by (simp add: loadLocal_def path_join_def JSON_parse_history_list [simplified])

subsection \<open>Facts about the Video Search Fetcher\<close>

lemma map_throwing_length:
  "map_throwing f xs = Inr ys \<Longrightarrow> length ys = length xs"
  by (induction xs arbitrary: ys) (auto split: sum.splits)

lemma map_throwing_member:
  "map_throwing f xs = Inr ys \<Longrightarrow> y \<in> set ys \<Longrightarrow> \<exists>x \<in> set xs. f x = Inr y"
  by (induction xs arbitrary: ys) (auto split: sum.splits)

lemma yt_entry_tags:
  "yt_entry i = Inr e \<Longrightarrow> map_of e ''type'' = Some ''vod'' \<and> map_of e ''source'' = Some ''youtube''"
  by (auto simp: yt_entry_def property_def split: option.splits)

lemma map_throwing_all2:
  "map_throwing f xs = Inr ys \<Longrightarrow> list_all2 (\<lambda>x y. f x = Inr y) xs ys"
  by (induction xs arbitrary: ys) (auto split: sum.splits)

lemma map_throwing_total:
  "(\<And>x. x \<in> set xs \<Longrightarrow> \<exists>y. f x = Inr y) \<Longrightarrow> \<exists>ys. map_throwing f xs = Inr ys"
proof (induction xs)
  case Nil
  show ?case by simp
next
  case (Cons x xs)
  from Cons.prems [of x] obtain y where y: "f x = Inr y" by auto
  from Cons.IH Cons.prems obtain ys where "map_throwing f xs = Inr ys" by auto
  with y show ?case by simp
qed

lemma yt_entry_shape:
  "yt_entry i = Inr e \<longleftrightarrow>
     (\<exists>sn. snippet i = Some sn \<and>
        e = (case title sn of None \<Rightarrow> [] | Some t \<Rightarrow> [(''name'', t)]) @
            [(''url'', ''https://www.youtube.com/watch?v='' @ (case videoId i of None \<Rightarrow> [] | Some v \<Rightarrow> v)),
             (''logo'', case thumbnails_default_url sn of None \<Rightarrow> [] | Some l \<Rightarrow> l),
             (''desc'', case description sn of None \<Rightarrow> [] | Some d \<Rightarrow> take 120 d),
             (''source'', ''youtube''),
             (''type'', ''vod'')])"
  by (cases "snippet i") (auto simp: yt_entry_def property_def or_blank_def split: option.splits)

lemma fetchYouTube_loop_other:
  "fetchYouTube_loop get k acc cs = Inr res \<Longrightarrow> cat \<notin> fst ` set cs \<Longrightarrow> map_of res cat = map_of acc cat"
proof (induction cs arbitrary: acc)
  case Nil
  then show ?case by simp
next
  case (Cons c cs)
  obtain cat' d where c: "c = (cat', d)" by (cases c)
  from Cons.prems(2) c have ne: "cat \<noteq> cat'" and rest: "cat \<notin> fst ` set cs" by auto
  show ?case
  proof (cases "get ''https://www.googleapis.com/youtube/v3/search'' (yt_request k d)")
    case None
    with Cons.prems(1) c have "fetchYouTube_loop get k acc cs = Inr res" by simp
    then show ?thesis using rest by (rule Cons.IH)
  next
    case (Some data)
    show ?thesis
    proof (cases "items data")
      case None
      with Cons.prems(1) c Some have "fetchYouTube_loop get k acc cs = Inr res" by simp
      then show ?thesis using rest by (rule Cons.IH)
    next
      case its: (Some its)
      show ?thesis
      proof (cases "map_throwing yt_entry (filter (\<lambda>i. truthy (videoId i)) its)")
        case (Inl e)
        with Cons.prems(1) c Some its show ?thesis by simp
      next
        case (Inr es')
        with Cons.prems(1) c Some its
        have "fetchYouTube_loop get k (AList.update cat' es' acc) cs = Inr res" by simp
        then have "map_of res cat = map_of (AList.update cat' es' acc) cat"
          using rest by (rule Cons.IH)
        then show ?thesis using ne by (simp add: update_conv')
      qed
    qed
  qed
qed

lemma fetchYouTube_loop_lookup:
  assumes "fetchYouTube_loop get k acc cs = Inr res" and "distinct (map fst cs)" and "(cat, d) \<in> set cs"
  shows "(\<exists>es. yt_answer get k d es \<and> map_of res cat = Some es) \<or>
     ((get ''https://www.googleapis.com/youtube/v3/search'' (yt_request k d) = None \<or>
       (\<exists>data. get ''https://www.googleapis.com/youtube/v3/search'' (yt_request k d) = Some data \<and>
          items data = None)) \<and> map_of res cat = map_of acc cat)"
  using assms
proof (induction cs arbitrary: acc)
  case Nil
  then show ?case by simp
next
  case (Cons c cs)
  obtain cat' d' where c: "c = (cat', d')" by (cases c)
  from Cons.prems(2) c have fresh: "cat' \<notin> fst ` set cs" and dist: "distinct (map fst cs)" by auto
  show ?case
  proof (cases "(cat, d) = (cat', d')")
    case False
    with Cons.prems(3) c have mem: "(cat, d) \<in> set cs" by auto
    with fresh have ne: "cat \<noteq> cat'" by force
    have later: ?thesis if run: "fetchYouTube_loop get k acc' cs = Inr res"
      and same: "map_of acc' cat = map_of acc cat" for acc'
      using Cons.IH [OF run dist mem] same by simp
    show ?thesis
    proof (cases "get ''https://www.googleapis.com/youtube/v3/search'' (yt_request k d')")
      case None
      with Cons.prems(1) c have "fetchYouTube_loop get k acc cs = Inr res" by simp
      then show ?thesis by (rule later) simp
    next
      case (Some data)
      show ?thesis
      proof (cases "items data")
        case None
        with Cons.prems(1) c Some have "fetchYouTube_loop get k acc cs = Inr res" by simp
        then show ?thesis by (rule later) simp
      next
        case its: (Some its)
        show ?thesis
        proof (cases "map_throwing yt_entry (filter (\<lambda>i. truthy (videoId i)) its)")
          case (Inl e)
          with Cons.prems(1) c Some its show ?thesis by simp
        next
          case (Inr es')
          with Cons.prems(1) c Some its
          have "fetchYouTube_loop get k (AList.update cat' es' acc) cs = Inr res" by simp
          then show ?thesis by (rule later) (simp add: update_conv' ne)
        qed
      qed
    qed
  next
    case True
    then have eq: "cat' = cat" "d' = d" by auto
    from fresh eq have out: "cat \<notin> fst ` set cs" by simp
    show ?thesis
    proof (cases "get ''https://www.googleapis.com/youtube/v3/search'' (yt_request k d)")
      case None
      with Cons.prems(1) c eq have "fetchYouTube_loop get k acc cs = Inr res" by simp
      then have "map_of res cat = map_of acc cat" using out by (rule fetchYouTube_loop_other)
      with None show ?thesis by simp
    next
      case (Some data)
      show ?thesis
      proof (cases "items data")
        case None
        with Cons.prems(1) c eq Some have "fetchYouTube_loop get k acc cs = Inr res" by simp
        then have "map_of res cat = map_of acc cat" using out by (rule fetchYouTube_loop_other)
        with Some None show ?thesis by simp
      next
        case its: (Some its)
        show ?thesis
        proof (cases "map_throwing yt_entry (filter (\<lambda>i. truthy (videoId i)) its)")
          case (Inl e)
          with Cons.prems(1) c eq Some its show ?thesis by simp
        next
          case (Inr es')
          with Cons.prems(1) c eq Some its
          have "fetchYouTube_loop get k (AList.update cat es' acc) cs = Inr res" by simp
          then have "map_of res cat = map_of (AList.update cat es' acc) cat"
            using out by (rule fetchYouTube_loop_other)
          then have "map_of res cat = Some es'" by (simp add: update_conv')
          moreover have "yt_answer get k d es'"
            unfolding yt_answer_def using Some its Inr by blast
          ultimately show ?thesis by blast
        qed
      qed
    qed
  qed
qed

lemma fetchYouTube_loop_total:
  assumes "\<And>cat d data its i. (cat, d) \<in> set cs \<Longrightarrow>
      get ''https://www.googleapis.com/youtube/v3/search'' (yt_request k d) = Some data \<Longrightarrow>
      items data = Some its \<Longrightarrow> i \<in> set its \<Longrightarrow> truthy (videoId i) \<Longrightarrow> snippet i \<noteq> None"
  shows "\<exists>res. fetchYouTube_loop get k acc cs = Inr res"
  using assms
proof (induction cs arbitrary: acc)
  case Nil
  show ?case by simp
next
  case (Cons c cs)
  obtain cat' d where c: "c = (cat', d)" by (cases c)
  have ih: "\<exists>res. fetchYouTube_loop get k acc' cs = Inr res" for acc'
    by (rule Cons.IH) (rule Cons.prems, auto)
  show ?case
  proof (cases "get ''https://www.googleapis.com/youtube/v3/search'' (yt_request k d)")
    case None
    then show ?thesis using ih [of acc] by (simp add: c)
  next
    case (Some data)
    show ?thesis
    proof (cases "items data")
      case None
      then show ?thesis using Some ih [of acc] by (simp add: c)
    next
      case its: (Some its)
      have "\<exists>y. yt_entry x = Inr y" if "x \<in> set (filter (\<lambda>i. truthy (videoId i)) its)" for x
      proof -
        from that have "x \<in> set its" "truthy (videoId x)" by auto
        with Cons.prems [of cat' d data its x] c Some its have "snippet x \<noteq> None" by simp
        then show ?thesis by (auto simp: yt_entry_def)
      qed
      then obtain es where "map_throwing yt_entry (filter (\<lambda>i. truthy (videoId i)) its) = Inr es"
        using map_throwing_total by blast
      then show ?thesis using Some its ih [of "AList.update cat' es acc"] by (simp add: c)
    qed
  qed
qed

lemma yt_request_literal:
  "yt_request k d =
     \<lparr>key = k, q = yt_query d, part = ''snippet'', search_type = ''video'',
      maxResults = 8, videoCategoryId = 0, videoEmbeddable = True\<rparr>"
  by (simp add: yt_request_def)

lemma yt_answer_entries:
  assumes "yt_answer get k d es"
    and "get ''https://www.googleapis.com/youtube/v3/search'' (yt_request k d) = Some data"
    and "items data = Some its"
  shows "list_all2 (\<lambda>i e. \<exists>sn. snippet i = Some sn \<and>
        e = (case title sn of None \<Rightarrow> [] | Some t \<Rightarrow> [(''name'', t)]) @
            [(''url'', ''https://www.youtube.com/watch?v='' @ (case videoId i of None \<Rightarrow> [] | Some v \<Rightarrow> v)),
             (''logo'', case thumbnails_default_url sn of None \<Rightarrow> [] | Some l \<Rightarrow> l),
             (''desc'', case description sn of None \<Rightarrow> [] | Some d \<Rightarrow> take 120 d),
             (''source'', ''youtube''),
             (''type'', ''vod'')])
      (filter (\<lambda>i. case videoId i of None \<Rightarrow> False | Some v \<Rightarrow> v \<noteq> []) its) es \<and>
    (\<forall>e \<in> set es. map_of e ''type'' = Some ''vod'' \<and> map_of e ''source'' = Some ''youtube'') \<and>
    length es \<le> length its"
proof -
  have f: "(\<lambda>i. truthy (videoId i)) = (\<lambda>i. case videoId i of None \<Rightarrow> False | Some v \<Rightarrow> v \<noteq> [])"
    by (rule ext) (simp add: truthy_def)
  from assms have m: "map_throwing yt_entry (filter (\<lambda>i. truthy (videoId i)) its) = Inr es"
    unfolding yt_answer_def by auto
  from map_throwing_all2 [OF m]
  have shape: "list_all2 (\<lambda>i e. yt_entry i = Inr e) (filter (\<lambda>i. truthy (videoId i)) its) es" .
  have tags: "\<forall>e \<in> set es. map_of e ''type'' = Some ''vod'' \<and> map_of e ''source'' = Some ''youtube''"
  proof
    fix e assume "e \<in> set es"
    from map_throwing_member [OF m this] obtain x where "yt_entry x = Inr e" by blast
    then show "map_of e ''type'' = Some ''vod'' \<and> map_of e ''source'' = Some ''youtube''"
      by (rule yt_entry_tags)
  qed
  have "length es = length (filter (\<lambda>i. truthy (videoId i)) its)"
    using m by (rule map_throwing_length)
  then have len: "length es \<le> length its" by simp
  from shape tags len show ?thesis
    unfolding yt_entry_shape f by (intro conjI)
qed

subsection \<open>Properties of the Video Search Fetcher\<close>

text \<open>
  Claim C5, as the code has it. Without an API key \<open>fetchYouTube\<close> returns the empty
  mapping. With a key, when it returns, a category whose request failed or whose response
  has no \<open>items\<close> has no key, and a category whose response has items holds the entries
  made from the items that carry a video id, in their order: each is tagged
  \<open>type = vod\<close> and \<open>source = youtube\<close>, and they are at most as many as the items of
  the response. The request asks for \<open>maxResults = 8\<close> and the fetcher does not cut the
  list, so the category has at most 8 entries when the response has at most 8 items. The
  fetcher returns whenever every item with a video id has a \<open>snippet\<close>.
\<close>

theorem fetchYouTube_entries:
  "fetchYouTube [] get = Inr [] \<and>
   (\<forall>byCategory cat def req.
      YOUTUBE_KEY \<noteq> [] \<and> fetchYouTube YOUTUBE_KEY get = Inr byCategory \<and> (cat, def) \<in> set CATEGORIES \<and>
      req = \<lparr>key = YOUTUBE_KEY, q = yt_query def, part = ''snippet'', search_type = ''video'',
              maxResults = 8, videoCategoryId = 0, videoEmbeddable = True\<rparr> \<longrightarrow>
      (get ''https://www.googleapis.com/youtube/v3/search'' req = None \<longrightarrow> map_of byCategory cat = None) \<and>
      (\<forall>data. get ''https://www.googleapis.com/youtube/v3/search'' req = Some data \<and> items data = None \<longrightarrow>
         map_of byCategory cat = None) \<and>
      (\<forall>data its. get ''https://www.googleapis.com/youtube/v3/search'' req = Some data \<and> items data = Some its \<longrightarrow>
         (\<exists>es. map_of byCategory cat = Some es \<and>
            list_all2 (\<lambda>i e. \<exists>sn. snippet i = Some sn \<and>
                e = (case title sn of None \<Rightarrow> [] | Some t \<Rightarrow> [(''name'', t)]) @
                    [(''url'', ''https://www.youtube.com/watch?v='' @ (case videoId i of None \<Rightarrow> [] | Some v \<Rightarrow> v)),
                     (''logo'', case thumbnails_default_url sn of None \<Rightarrow> [] | Some l \<Rightarrow> l),
                     (''desc'', case description sn of None \<Rightarrow> [] | Some d \<Rightarrow> take 120 d),
                     (''source'', ''youtube''),
                     (''type'', ''vod'')])
              (filter (\<lambda>i. case videoId i of None \<Rightarrow> False | Some v \<Rightarrow> v \<noteq> []) its) es \<and>
            (\<forall>e \<in> set es. map_of e ''type'' = Some ''vod'' \<and> map_of e ''source'' = Some ''youtube'') \<and>
            length es \<le> length its \<and>
            (length its \<le> maxResults req \<longrightarrow> length es \<le> 8)))) \<and>
   (YOUTUBE_KEY \<noteq> [] \<and>
    (\<forall>cat def data its i.
       (cat, def) \<in> set CATEGORIES \<and>
       get ''https://www.googleapis.com/youtube/v3/search''
         \<lparr>key = YOUTUBE_KEY, q = yt_query def, part = ''snippet'', search_type = ''video'',
          maxResults = 8, videoCategoryId = 0, videoEmbeddable = True\<rparr> = Some data \<and>
       items data = Some its \<and> i \<in> set its \<and> videoId i \<noteq> None \<and> videoId i \<noteq> Some [] \<longrightarrow>
       snippet i \<noteq> None) \<longrightarrow>
    (\<exists>byCategory. fetchYouTube YOUTUBE_KEY get = Inr byCategory))"
proof (intro conjI allI impI)
  show "fetchYouTube [] get = Inr []" by (simp add: fetchYouTube_def)
next
  fix byCategory cat "def" req
  assume a: "YOUTUBE_KEY \<noteq> [] \<and> fetchYouTube YOUTUBE_KEY get = Inr byCategory \<and> (cat, def) \<in> set CATEGORIES \<and>
      req = \<lparr>key = YOUTUBE_KEY, q = yt_query def, part = ''snippet'', search_type = ''video'',
              maxResults = 8, videoCategoryId = 0, videoEmbeddable = True\<rparr>"
  then have k: "YOUTUBE_KEY \<noteq> []" and f: "fetchYouTube YOUTUBE_KEY get = Inr byCategory"
    and mem: "(cat, def) \<in> set CATEGORIES" and req: "req = yt_request YOUTUBE_KEY def"
    by (simp_all add: yt_request_literal)
  from k f have run: "fetchYouTube_loop get YOUTUBE_KEY [] CATEGORIES = Inr byCategory"
    by (simp add: fetchYouTube_def)
  note look = fetchYouTube_loop_lookup [OF run distinct_CATEGORIES mem]
  {
    assume "get ''https://www.googleapis.com/youtube/v3/search'' req = None"
    with look show "map_of byCategory cat = None"
      unfolding req yt_answer_def by auto
  next
    fix data
    assume "get ''https://www.googleapis.com/youtube/v3/search'' req = Some data \<and> items data = None"
    with look show "map_of byCategory cat = None"
      unfolding req yt_answer_def by auto
  next
    fix data its
    assume r: "get ''https://www.googleapis.com/youtube/v3/search'' req = Some data \<and> items data = Some its"
    then have g: "get ''https://www.googleapis.com/youtube/v3/search'' (yt_request YOUTUBE_KEY def) = Some data"
      and i: "items data = Some its" by (simp_all add: req)
    from look g i obtain es where ans: "yt_answer get YOUTUBE_KEY def es" and m: "map_of byCategory cat = Some es"
      by auto
    note e = yt_answer_entries [OF ans g i]
    have "length its \<le> maxResults req \<longrightarrow> length es \<le> 8"
      using e by (simp add: req yt_request_def)
    with m e show "\<exists>es. map_of byCategory cat = Some es \<and>
            list_all2 (\<lambda>i e. \<exists>sn. snippet i = Some sn \<and>
                e = (case title sn of None \<Rightarrow> [] | Some t \<Rightarrow> [(''name'', t)]) @
                    [(''url'', ''https://www.youtube.com/watch?v='' @ (case videoId i of None \<Rightarrow> [] | Some v \<Rightarrow> v)),
                     (''logo'', case thumbnails_default_url sn of None \<Rightarrow> [] | Some l \<Rightarrow> l),
                     (''desc'', case description sn of None \<Rightarrow> [] | Some d \<Rightarrow> take 120 d),
                     (''source'', ''youtube''),
                     (''type'', ''vod'')])
              (filter (\<lambda>i. case videoId i of None \<Rightarrow> False | Some v \<Rightarrow> v \<noteq> []) its) es \<and>
            (\<forall>e \<in> set es. map_of e ''type'' = Some ''vod'' \<and> map_of e ''source'' = Some ''youtube'') \<and>
            length es \<le> length its \<and>
            (length its \<le> maxResults req \<longrightarrow> length es \<le> 8)"
      by (intro exI [of _ es] conjI) simp_all
  }
next
  assume a: "YOUTUBE_KEY \<noteq> [] \<and>
    (\<forall>cat def data its i.
       (cat, def) \<in> set CATEGORIES \<and>
       get ''https://www.googleapis.com/youtube/v3/search''
         \<lparr>key = YOUTUBE_KEY, q = yt_query def, part = ''snippet'', search_type = ''video'',
          maxResults = 8, videoCategoryId = 0, videoEmbeddable = True\<rparr> = Some data \<and>
       items data = Some its \<and> i \<in> set its \<and> videoId i \<noteq> None \<and> videoId i \<noteq> Some [] \<longrightarrow>
       snippet i \<noteq> None)"
  have "\<exists>res. fetchYouTube_loop get YOUTUBE_KEY [] CATEGORIES = Inr res"
  proof (rule fetchYouTube_loop_total)
    fix cat d data its i
    assume "(cat, d) \<in> set CATEGORIES"
      "get ''https://www.googleapis.com/youtube/v3/search'' (yt_request YOUTUBE_KEY d) = Some data"
      "items data = Some its" "i \<in> set its" "truthy (videoId i)"
    moreover from \<open>truthy (videoId i)\<close> have "videoId i \<noteq> None \<and> videoId i \<noteq> Some []"
      by (auto simp: truthy_def split: option.splits)
    ultimately show "snippet i \<noteq> None"
      using a [THEN conjunct2, rule_format, of cat d data its i]
      by (simp add: yt_request_literal)
  qed
  with a show "\<exists>byCategory. fetchYouTube YOUTUBE_KEY get = Inr byCategory"
    by (simp add: fetchYouTube_def)
qed

lemmas yt_eval =
  fetchYouTube_def CATEGORIES_def yt_request_def yt_entry_def property_def or_blank_def truthy_def

text \<open>
  The theorem at a concrete run: the search for the category \<open>kids\<close> answers with one
  item that has a video id and one that has none, every other request fails.
\<close>

theorem fetchYouTube_entries_witness:
  "fetchYouTube ''K''
     (\<lambda>url params.
        if q params = ''kids educational show''
        then Some \<lparr>items = Some
          [\<lparr>videoId = Some ''abc'', snippet = Some \<lparr>title = Some ''Counting'', thumbnails_default_url = None,
              description = Some ''Numbers''\<rparr>\<rparr>,
           \<lparr>videoId = None, snippet = None\<rparr>]\<rparr>
        else None)
   = Inr [(''kids'', [[(''name'', ''Counting''), (''url'', ''https://www.youtube.com/watch?v=abc''),
                       (''logo'', []), (''desc'', ''Numbers''), (''source'', ''youtube''), (''type'', ''vod'')]])] \<and>
   (''kids'', \<lparr>iptv_groups = [''Kids''], yt_query = ''kids educational show'', tmdb_genre_id = 10762\<rparr>)
      \<in> set CATEGORIES \<and>
   (''news'', \<lparr>iptv_groups = [''News'', ''General''], yt_query = ''news live stream'', tmdb_genre_id = 10763\<rparr>)
      \<in> set CATEGORIES \<and>
   (\<exists>es. map_of [(''kids'', [[(''name'', ''Counting''), (''url'', ''https://www.youtube.com/watch?v=abc''),
                       (''logo'', []), (''desc'', ''Numbers''), (''source'', ''youtube''), (''type'', ''vod'')]])] ''kids''
          = Some es \<and> length es \<le> 2 \<and>
      list_all2 (\<lambda>i e. \<exists>sn. snippet i = Some sn \<and>
                e = (case title sn of None \<Rightarrow> [] | Some t \<Rightarrow> [(''name'', t)]) @
                    [(''url'', ''https://www.youtube.com/watch?v='' @ (case videoId i of None \<Rightarrow> [] | Some v \<Rightarrow> v)),
                     (''logo'', case thumbnails_default_url sn of None \<Rightarrow> [] | Some l \<Rightarrow> l),
                     (''desc'', case description sn of None \<Rightarrow> [] | Some d \<Rightarrow> take 120 d),
                     (''source'', ''youtube''),
                     (''type'', ''vod'')])
         [\<lparr>videoId = Some ''abc'', snippet = Some \<lparr>title = Some ''Counting'', thumbnails_default_url = None,
              description = Some ''Numbers''\<rparr>\<rparr>] es) \<and>
   map_of [(''kids'', [[(''name'', ''Counting''), (''url'', ''https://www.youtube.com/watch?v=abc''),
                       (''logo'', []), (''desc'', ''Numbers''), (''source'', ''youtube''), (''type'', ''vod'')]])] ''news''
     = None \<and>
   (\<exists>byCategory. fetchYouTube ''K''
     (\<lambda>url params.
        if q params = ''kids educational show''
        then Some \<lparr>items = Some
          [\<lparr>videoId = Some ''abc'', snippet = Some \<lparr>title = Some ''Counting'', thumbnails_default_url = None,
              description = Some ''Numbers''\<rparr>\<rparr>,
           \<lparr>videoId = None, snippet = None\<rparr>]\<rparr>
        else None) = Inr byCategory)"
proof -
  let ?get = "\<lambda>url params.
        if q params = ''kids educational show''
        then Some \<lparr>items = Some
          [\<lparr>videoId = Some ''abc'', snippet = Some \<lparr>title = Some ''Counting'', thumbnails_default_url = None,
              description = Some ''Numbers''\<rparr>\<rparr>,
           \<lparr>videoId = None, snippet = None\<rparr>]\<rparr>
        else None"
  let ?e = "[(''name'', ''Counting''), (''url'', ''https://www.youtube.com/watch?v=abc''),
                       (''logo'', []), (''desc'', ''Numbers''), (''source'', ''youtube''), (''type'', ''vod'')]"
  let ?kids = "\<lparr>iptv_groups = [''Kids''], yt_query = ''kids educational show'', tmdb_genre_id = 10762\<rparr>"
  let ?news = "\<lparr>iptv_groups = [''News'', ''General''], yt_query = ''news live stream'', tmdb_genre_id = 10763\<rparr>"
  have run: "fetchYouTube ''K'' ?get = Inr [(''kids'', [?e])]"
    by (simp add: yt_eval)
  have ck: "(''kids'', ?kids) \<in> set CATEGORIES" and cn: "(''news'', ?news) \<in> set CATEGORIES"
    by (simp_all add: CATEGORIES_def)
  note t = fetchYouTube_entries [of ?get "''K''", THEN conjunct2, THEN conjunct1, rule_format]
  have kids: "\<exists>es. map_of [(''kids'', [?e])] ''kids'' = Some es \<and> length es \<le> 2 \<and>
      list_all2 (\<lambda>i e. \<exists>sn. snippet i = Some sn \<and>
                e = (case title sn of None \<Rightarrow> [] | Some t \<Rightarrow> [(''name'', t)]) @
                    [(''url'', ''https://www.youtube.com/watch?v='' @ (case videoId i of None \<Rightarrow> [] | Some v \<Rightarrow> v)),
                     (''logo'', case thumbnails_default_url sn of None \<Rightarrow> [] | Some l \<Rightarrow> l),
                     (''desc'', case description sn of None \<Rightarrow> [] | Some d \<Rightarrow> take 120 d),
                     (''source'', ''youtube''),
                     (''type'', ''vod'')])
         [\<lparr>videoId = Some ''abc'', snippet = Some \<lparr>title = Some ''Counting'', thumbnails_default_url = None,
              description = Some ''Numbers''\<rparr>\<rparr>] es"
    using t [of "[(''kids'', [?e])]" "''kids''" ?kids "yt_request ''K'' ?kids", THEN conjunct2, THEN conjunct2,
        rule_format, of "\<lparr>items = Some
          [\<lparr>videoId = Some ''abc'', snippet = Some \<lparr>title = Some ''Counting'', thumbnails_default_url = None,
              description = Some ''Numbers''\<rparr>\<rparr>,
           \<lparr>videoId = None, snippet = None\<rparr>]\<rparr>"
          "[\<lparr>videoId = Some ''abc'', snippet = Some \<lparr>title = Some ''Counting'', thumbnails_default_url = None,
              description = Some ''Numbers''\<rparr>\<rparr>,
           \<lparr>videoId = None, snippet = None\<rparr>]"]
      run ck
    by (simp add: yt_request_def)
  have news: "map_of [(''kids'', [?e])] ''news'' = None"
    using t [of "[(''kids'', [?e])]" "''news''" ?news "yt_request ''K'' ?news", THEN conjunct1] run cn
    by (simp add: yt_request_def)
  have guard: "\<forall>cat def data its i.
       (cat, def) \<in> set CATEGORIES \<and>
       ?get ''https://www.googleapis.com/youtube/v3/search''
         \<lparr>key = ''K'', q = yt_query def, part = ''snippet'', search_type = ''video'',
          maxResults = 8, videoCategoryId = 0, videoEmbeddable = True\<rparr> = Some data \<and>
       items data = Some its \<and> i \<in> set its \<and> videoId i \<noteq> None \<and> videoId i \<noteq> Some [] \<longrightarrow>
       snippet i \<noteq> None"
    by (auto split: if_splits)
  have returns: "\<exists>byCategory. fetchYouTube ''K'' ?get = Inr byCategory"
    using fetchYouTube_entries [of ?get "''K''", THEN conjunct2, THEN conjunct2] guard by simp
  from run ck cn kids news returns show ?thesis by (intro conjI)
qed

text \<open>
  Claim C5 as stated bounds the list by 8 for every response. A response with nine items
  gives nine entries.
\<close>

theorem fetchYouTube_nine_counterexample:
  "\<exists>byCategory es.
     fetchYouTube ''K''
       (\<lambda>url params.
          if q params = ''kids educational show''
          then Some \<lparr>items = Some
            (map (\<lambda>v. \<lparr>videoId = Some v, snippet = Some \<lparr>title = Some v, thumbnails_default_url = None,
                description = None\<rparr>\<rparr>)
               [''v1'', ''v2'', ''v3'', ''v4'', ''v5'', ''v6'', ''v7'', ''v8'', ''v9''])\<rparr>
          else None) = Inr byCategory \<and>
     map_of byCategory ''kids'' = Some es \<and> length es = 9 \<and> \<not> length es \<le> 8"
  by (simp add: yt_eval)

subsection \<open>Facts about the Metadata Fetcher\<close>

lemma fetchTMDB_body_skip:
  "tmdb_genre_id d \<in> set (s_seen s) \<Longrightarrow> fetchTMDB_body get k s (cat, d) = s"
  by simp

lemma fetchTMDB_body_seen:
  "set (s_seen (fetchTMDB_body get k s (cat, d))) = insert (tmdb_genre_id d) (set (s_seen s))"
  by (auto simp: Let_def set_Set_add split: option.splits)

lemma fetchTMDB_body_asked:
  "s_asked (fetchTMDB_body get k s (cat, d)) =
     (if tmdb_genre_id d \<in> set (s_seen s) then s_asked s else s_asked s @ [cat])"
  by (simp add: Let_def split: option.splits)

lemma fetchTMDB_body_byCategory:
  "map_of (s_byCategory (fetchTMDB_body get k s (cat, d))) c =
     (if c = cat \<and> tmdb_genre_id d \<notin> set (s_seen s) then
        (case get ''https://api.themoviedb.org/3/discover/tv'' (tmdb_request k d) of
           None \<Rightarrow> map_of (s_byCategory s) c
         | Some data \<Rightarrow>
             (case results data of
                None \<Rightarrow> map_of (s_byCategory s) c
              | Some rs \<Rightarrow> Some (map tmdb_entry (take 8 rs))))
      else map_of (s_byCategory s) c)"
  by (simp add: Let_def update_conv' split: option.splits)

declare fetchTMDB_body.simps [simp del]

lemma fetchTMDB_fold_seen:
  "set (s_seen (foldl (fetchTMDB_body get k) s cs)) = set (s_seen s) \<union> tmdb_genre_id ` snd ` set cs"
proof (induction cs arbitrary: s)
  case Nil
  show ?case by simp
next
  case (Cons c cs)
  obtain cat d where c: "c = (cat, d)" by (cases c)
  show ?case by (simp add: c Cons.IH fetchTMDB_body_seen)
qed

lemma fetchTMDB_fold_asked:
  "set (s_asked s) \<subseteq> set (s_asked (foldl (fetchTMDB_body get k) s cs)) \<and>
   set (s_asked (foldl (fetchTMDB_body get k) s cs)) \<subseteq> set (s_asked s) \<union> fst ` set cs"
proof (induction cs arbitrary: s)
  case Nil
  show ?case by simp
next
  case (Cons c cs)
  obtain cat d where c: "c = (cat, d)" by (cases c)
  have step: "set (s_asked (fetchTMDB_body get k s (cat, d))) \<subseteq> insert cat (set (s_asked s))"
    and keep: "set (s_asked s) \<subseteq> set (s_asked (fetchTMDB_body get k s (cat, d)))"
    by (auto simp: fetchTMDB_body_asked)
  from Cons.IH [of "fetchTMDB_body get k s (cat, d)"] step keep
  show ?case by (auto simp: c)
qed

lemma fetchTMDB_fold_keys:
  "fst ` set (s_byCategory s) \<subseteq> set (s_asked s) \<Longrightarrow>
   fst ` set (s_byCategory (foldl (fetchTMDB_body get k) s cs)) \<subseteq> set (s_asked (foldl (fetchTMDB_body get k) s cs))"
proof (induction cs arbitrary: s)
  case Nil
  then show ?case by simp
next
  case (Cons c cs)
  obtain cat d where c: "c = (cat, d)" by (cases c)
  have "fst ` set (s_byCategory (fetchTMDB_body get k s (cat, d))) \<subseteq> set (s_asked (fetchTMDB_body get k s (cat, d)))"
    using Cons.prems
    by (auto simp: fetchTMDB_body.simps Let_def dom_update split: option.splits)
  from Cons.IH [OF this] show ?case by (simp add: c)
qed

lemma fetchTMDB_fold_other:
  "c \<notin> fst ` set cs \<Longrightarrow>
   map_of (s_byCategory (foldl (fetchTMDB_body get k) s cs)) c = map_of (s_byCategory s) c"
proof (induction cs arbitrary: s)
  case Nil
  show ?case by simp
next
  case (Cons x cs)
  obtain cat d where x: "x = (cat, d)" by (cases x)
  from Cons.prems x have "c \<noteq> cat" and "c \<notin> fst ` set cs" by auto
  then show ?case by (simp add: x Cons.IH fetchTMDB_body_byCategory)
qed

lemma map_of_None_keys: "k \<notin> fst ` set al \<Longrightarrow> map_of al k = None"
  by (simp add: map_of_eq_None_iff)

lemma fetchTMDB_later:
  assumes cs: "cs = pre @ (cat, d) # post" and names: "distinct (map fst cs)"
    and g: "tmdb_genre_id d \<in> tmdb_genre_id ` snd ` set pre"
  shows "cat \<notin> set (s_asked (foldl (fetchTMDB_body get k) \<lparr>s_byCategory = [], s_seen = [], s_asked = []\<rparr> cs)) \<and>
    map_of (s_byCategory (foldl (fetchTMDB_body get k) \<lparr>s_byCategory = [], s_seen = [], s_asked = []\<rparr> cs)) cat = None"
proof -
  let ?s0 = "\<lparr>s_byCategory = [], s_seen = [], s_asked = []\<rparr>"
  let ?s1 = "foldl (fetchTMDB_body get k) ?s0 pre"
  have seen: "tmdb_genre_id d \<in> set (s_seen ?s1)"
    using g by (simp add: fetchTMDB_fold_seen)
  have run: "foldl (fetchTMDB_body get k) ?s0 cs = foldl (fetchTMDB_body get k) ?s1 post"
    by (simp add: cs fetchTMDB_body_skip [OF seen])
  have "set (s_asked ?s1) \<subseteq> fst ` set pre"
    using fetchTMDB_fold_asked [of ?s0 get k pre] by simp
  moreover have "set (s_asked (foldl (fetchTMDB_body get k) ?s1 post)) \<subseteq> set (s_asked ?s1) \<union> fst ` set post"
    using fetchTMDB_fold_asked [of ?s1 get k post] by simp
  moreover have "cat \<notin> fst ` set pre" and "cat \<notin> fst ` set post"
    using names by (auto simp: cs)
  ultimately have no: "cat \<notin> set (s_asked (foldl (fetchTMDB_body get k) ?s0 cs))"
    unfolding run by blast
  have "fst ` set (s_byCategory (foldl (fetchTMDB_body get k) ?s0 cs)) \<subseteq>
      set (s_asked (foldl (fetchTMDB_body get k) ?s0 cs))"
    by (rule fetchTMDB_fold_keys) simp
  with no have "cat \<notin> fst ` set (s_byCategory (foldl (fetchTMDB_body get k) ?s0 cs))" by blast
  then have "map_of (s_byCategory (foldl (fetchTMDB_body get k) ?s0 cs)) cat = None"
    by (rule map_of_None_keys)
  with no show ?thesis by simp
qed

lemma fetchTMDB_first:
  assumes cs: "cs = pre @ (cat, d) # post" and names: "distinct (map fst cs)"
    and g: "tmdb_genre_id d \<notin> tmdb_genre_id ` snd ` set pre"
  shows "cat \<in> set (s_asked (foldl (fetchTMDB_body get k) \<lparr>s_byCategory = [], s_seen = [], s_asked = []\<rparr> cs)) \<and>
    map_of (s_byCategory (foldl (fetchTMDB_body get k) \<lparr>s_byCategory = [], s_seen = [], s_asked = []\<rparr> cs)) cat =
      (case get ''https://api.themoviedb.org/3/discover/tv'' (tmdb_request k d) of
         None \<Rightarrow> None
       | Some data \<Rightarrow> map_option (\<lambda>rs. map tmdb_entry (take 8 rs)) (results data))"
proof -
  let ?s0 = "\<lparr>s_byCategory = [], s_seen = [], s_asked = []\<rparr>"
  let ?s1 = "foldl (fetchTMDB_body get k) ?s0 pre"
  let ?s2 = "fetchTMDB_body get k ?s1 (cat, d)"
  have fresh: "tmdb_genre_id d \<notin> set (s_seen ?s1)"
    using g by (simp add: fetchTMDB_fold_seen)
  have run: "foldl (fetchTMDB_body get k) ?s0 cs = foldl (fetchTMDB_body get k) ?s2 post"
    by (simp add: cs)
  have "cat \<in> set (s_asked ?s2)"
    using fresh by (simp add: fetchTMDB_body_asked)
  then have asked: "cat \<in> set (s_asked (foldl (fetchTMDB_body get k) ?s0 cs))"
    unfolding run using fetchTMDB_fold_asked [of ?s2 get k post] by blast
  have pre_none: "map_of (s_byCategory ?s1) cat = None"
  proof -
    have "cat \<notin> fst ` set pre" using names by (auto simp: cs)
    then have "map_of (s_byCategory ?s1) cat = map_of (s_byCategory ?s0) cat"
      by (rule fetchTMDB_fold_other)
    then show ?thesis by simp
  qed
  have "cat \<notin> fst ` set post" using names by (auto simp: cs)
  then have "map_of (s_byCategory (foldl (fetchTMDB_body get k) ?s2 post)) cat = map_of (s_byCategory ?s2) cat"
    by (rule fetchTMDB_fold_other)
  also have "\<dots> = (case get ''https://api.themoviedb.org/3/discover/tv'' (tmdb_request k d) of
         None \<Rightarrow> None
       | Some data \<Rightarrow> map_option (\<lambda>rs. map tmdb_entry (take 8 rs)) (results data))"
    using fresh pre_none by (simp add: fetchTMDB_body_byCategory split: option.splits)
  finally show ?thesis using asked by (simp add: run)
qed

lemma decimal_1399: "decimal 1399 = ''1399''"
  by (simp add: decimal.simps)

subsection \<open>Properties of the Metadata Fetcher\<close>

text \<open>
  Claim C4. In \<open>fetchTMDB\<close>, for every pair of categories of the table that share a
  \<open>tmdb_genre_id\<close>, the later one issues no request and receives no entries (it has no
  key in the result). With an API key, a category that is the first of the table with its
  genre id does issue a request, and it receives what the response to that request
  gives: the first 8 results as entries, or nothing when the request fails or the
  response has no \<open>results\<close>.
\<close>

theorem fetchTMDB_first_category_claims_genre:
  "(\<forall>i j. i < j \<and> j < length CATEGORIES \<and>
       tmdb_genre_id (snd (CATEGORIES ! i)) = tmdb_genre_id (snd (CATEGORIES ! j)) \<longrightarrow>
       fst (CATEGORIES ! j) \<notin> set (s_asked (fetchTMDB TMDB_KEY get)) \<and>
       map_of (s_byCategory (fetchTMDB TMDB_KEY get)) (fst (CATEGORIES ! j)) = None) \<and>
   (\<forall>j. TMDB_KEY \<noteq> [] \<and> j < length CATEGORIES \<and>
       (\<forall>i<j. tmdb_genre_id (snd (CATEGORIES ! i)) \<noteq> tmdb_genre_id (snd (CATEGORIES ! j))) \<longrightarrow>
       fst (CATEGORIES ! j) \<in> set (s_asked (fetchTMDB TMDB_KEY get)) \<and>
       map_of (s_byCategory (fetchTMDB TMDB_KEY get)) (fst (CATEGORIES ! j)) =
         (case get ''https://api.themoviedb.org/3/discover/tv'' (tmdb_request TMDB_KEY (snd (CATEGORIES ! j))) of
            None \<Rightarrow> None
          | Some data \<Rightarrow> map_option (\<lambda>rs. map tmdb_entry (take 8 rs)) (results data)))"
proof (intro conjI allI impI)
  fix i j
  assume a: "i < j \<and> j < length CATEGORIES \<and>
       tmdb_genre_id (snd (CATEGORIES ! i)) = tmdb_genre_id (snd (CATEGORIES ! j))"
  then have split: "CATEGORIES = take j CATEGORIES @ (fst (CATEGORIES ! j), snd (CATEGORIES ! j)) # drop (Suc j) CATEGORIES"
    by (simp add: id_take_nth_drop)
  have "CATEGORIES ! i \<in> set (take j CATEGORIES)"
    using a by (auto simp: in_set_conv_nth intro!: exI [of _ i])
  then have g: "tmdb_genre_id (snd (CATEGORIES ! j)) \<in> tmdb_genre_id ` snd ` set (take j CATEGORIES)"
    using a by (metis image_eqI)
  show "fst (CATEGORIES ! j) \<notin> set (s_asked (fetchTMDB TMDB_KEY get))"
    using fetchTMDB_later [OF split distinct_CATEGORIES g, of get TMDB_KEY]
    by (simp add: fetchTMDB_def)
  show "map_of (s_byCategory (fetchTMDB TMDB_KEY get)) (fst (CATEGORIES ! j)) = None"
    using fetchTMDB_later [OF split distinct_CATEGORIES g, of get TMDB_KEY]
    by (simp add: fetchTMDB_def)
next
  fix j
  assume a: "TMDB_KEY \<noteq> [] \<and> j < length CATEGORIES \<and>
       (\<forall>i<j. tmdb_genre_id (snd (CATEGORIES ! i)) \<noteq> tmdb_genre_id (snd (CATEGORIES ! j)))"
  then have split: "CATEGORIES = take j CATEGORIES @ (fst (CATEGORIES ! j), snd (CATEGORIES ! j)) # drop (Suc j) CATEGORIES"
    by (simp add: id_take_nth_drop)
  have g: "tmdb_genre_id (snd (CATEGORIES ! j)) \<notin> tmdb_genre_id ` snd ` set (take j CATEGORIES)"
  proof
    assume "tmdb_genre_id (snd (CATEGORIES ! j)) \<in> tmdb_genre_id ` snd ` set (take j CATEGORIES)"
    then obtain x where x: "x \<in> set (take j CATEGORIES)"
      and eq: "tmdb_genre_id (snd (CATEGORIES ! j)) = tmdb_genre_id (snd x)" by auto
    from x obtain i where "i < j" and "x = CATEGORIES ! i"
      using a by (auto simp: in_set_conv_nth)
    with a eq show False by auto
  qed
  show "fst (CATEGORIES ! j) \<in> set (s_asked (fetchTMDB TMDB_KEY get))"
    using fetchTMDB_first [OF split distinct_CATEGORIES g, of get TMDB_KEY] a
    by (simp add: fetchTMDB_def)
  show "map_of (s_byCategory (fetchTMDB TMDB_KEY get)) (fst (CATEGORIES ! j)) =
         (case get ''https://api.themoviedb.org/3/discover/tv'' (tmdb_request TMDB_KEY (snd (CATEGORIES ! j))) of
            None \<Rightarrow> None
          | Some data \<Rightarrow> map_option (\<lambda>rs. map tmdb_entry (take 8 rs)) (results data))"
    using fetchTMDB_first [OF split distinct_CATEGORIES g, of get TMDB_KEY] a
    by (simp add: fetchTMDB_def)
qed

lemmas tmdb_eval =
  fetchTMDB_def fetchTMDB_body.simps CATEGORIES_def tmdb_request_def tmdb_entry_def property_def
  or_blank_def truthy_def Set_add_def Let_def

text \<open>
  The theorem at a concrete run, for \<open>science\<close> and \<open>history\<close>, which share the genre id
  99: \<open>science\<close> asks and receives the show of the response, \<open>history\<close> does neither.
\<close>

theorem fetchTMDB_first_category_claims_genre_witness:
  "''history'' \<notin> set (s_asked (fetchTMDB ''K''
      (\<lambda>url params. if with_genres params = 99
         then Some \<lparr>results = Some [\<lparr>r_name = Some ''Planet'', r_original_name = None, r_id = 1399,
                 r_poster_path = None, r_overview = Some ''Nature''\<rparr>]\<rparr>
         else None))) \<and>
   map_of (s_byCategory (fetchTMDB ''K''
      (\<lambda>url params. if with_genres params = 99
         then Some \<lparr>results = Some [\<lparr>r_name = Some ''Planet'', r_original_name = None, r_id = 1399,
                 r_poster_path = None, r_overview = Some ''Nature''\<rparr>]\<rparr>
         else None))) ''history'' = None \<and>
   ''science'' \<in> set (s_asked (fetchTMDB ''K''
      (\<lambda>url params. if with_genres params = 99
         then Some \<lparr>results = Some [\<lparr>r_name = Some ''Planet'', r_original_name = None, r_id = 1399,
                 r_poster_path = None, r_overview = Some ''Nature''\<rparr>]\<rparr>
         else None))) \<and>
   map_of (s_byCategory (fetchTMDB ''K''
      (\<lambda>url params. if with_genres params = 99
         then Some \<lparr>results = Some [\<lparr>r_name = Some ''Planet'', r_original_name = None, r_id = 1399,
                 r_poster_path = None, r_overview = Some ''Nature''\<rparr>]\<rparr>
         else None))) ''science'' =
     Some [[(''name'', ''Planet''), (''url'', ''https://www.themoviedb.org/tv/1399''), (''logo'', []),
            (''desc'', ''Nature''), (''source'', ''tmdb''), (''type'', ''info'')]]"
proof -
  let ?get = "\<lambda>url params. if with_genres params = 99
         then Some \<lparr>results = Some [\<lparr>r_name = Some ''Planet'', r_original_name = None, r_id = 1399,
                 r_poster_path = None, r_overview = Some ''Nature''\<rparr>]\<rparr>
         else None"
  note t = fetchTMDB_first_category_claims_genre [of "''K''" ?get]
  have len: "length CATEGORIES = 16" by (simp add: CATEGORIES_def)
  have n2: "CATEGORIES ! 2 = (''science'', \<lparr>iptv_groups = [''Science / Technology''], yt_query = ''science documentary'', tmdb_genre_id = 99\<rparr>)"
    and n3: "CATEGORIES ! 3 = (''history'', \<lparr>iptv_groups = [''Education''], yt_query = ''history documentary'', tmdb_genre_id = 99\<rparr>)"
    and n1: "CATEGORIES ! 1 = (''technology'', \<lparr>iptv_groups = [''Science / Technology''], yt_query = ''technology documentary'', tmdb_genre_id = 10759\<rparr>)"
    and n0: "CATEGORIES ! 0 = (''news'', \<lparr>iptv_groups = [''News'', ''General''], yt_query = ''news live stream'', tmdb_genre_id = 10763\<rparr>)"
    by (simp_all add: CATEGORIES_def)
  have first: "\<forall>i<2. tmdb_genre_id (snd (CATEGORIES ! i)) \<noteq> tmdb_genre_id (snd (CATEGORIES ! 2))"
  proof (intro allI impI)
    fix i :: nat assume "i < 2"
    then have "i = 0 \<or> i = 1" by auto
    then show "tmdb_genre_id (snd (CATEGORIES ! i)) \<noteq> tmdb_genre_id (snd (CATEGORIES ! 2))"
      using n0 n1 n2 by auto
  qed
  have later: "fst (CATEGORIES ! 3) \<notin> set (s_asked (fetchTMDB ''K'' ?get)) \<and>
       map_of (s_byCategory (fetchTMDB ''K'' ?get)) (fst (CATEGORIES ! 3)) = None"
    using t [THEN conjunct1, rule_format, of 2 3] len n2 n3 by simp
  have winner: "fst (CATEGORIES ! 2) \<in> set (s_asked (fetchTMDB ''K'' ?get)) \<and>
       map_of (s_byCategory (fetchTMDB ''K'' ?get)) (fst (CATEGORIES ! 2)) =
         (case ?get ''https://api.themoviedb.org/3/discover/tv'' (tmdb_request ''K'' (snd (CATEGORIES ! 2))) of
            None \<Rightarrow> None
          | Some data \<Rightarrow> map_option (\<lambda>rs. map tmdb_entry (take 8 rs)) (results data))"
    using t [THEN conjunct2, rule_format, of 2] len first by simp
  from later winner show ?thesis
    by (simp add: n2 n3 tmdb_request_def tmdb_entry_def property_def or_blank_def truthy_def decimal_1399)
qed

text \<open>The seven categories that issue a request, whatever the responses.\<close>

lemma fetchTMDB_asked_example:
  "s_asked (fetchTMDB ''K'' (\<lambda>url params. None)) =
     [''news'', ''technology'', ''science'', ''music'', ''entertainment'', ''kids'', ''animation'']"
  by (simp add: tmdb_eval)

subsection \<open>Facts about the Playlist Fetcher\<close>

lemma push_stream_member:
  assumes "push_stream bg g e = Inr bg'" and "map_of bg' g' = Some es" and "x \<in> set es"
  shows "(\<exists>es0. map_of bg g' = Some es0 \<and> x \<in> set es0) \<or> (x = e \<and> g' = g)"
proof (cases "map_of bg g")
  case None
  with assms(1) have "bg' = bg \<or> bg' = AList.update g [e] bg"
    by (auto simp: push_stream_def split: if_splits)
  then show ?thesis
  proof
    assume "bg' = bg"
    with assms show ?thesis by auto
  next
    assume "bg' = AList.update g [e] bg"
    with assms(2,3) show ?thesis
      by (auto simp: update_conv' split: if_splits)
  qed
next
  case (Some streams)
  with assms(1) have "bg' = bg \<or> bg' = AList.update g (streams @ [e]) bg"
    by (auto simp: push_stream_def split: if_splits)
  then show ?thesis
  proof
    assume "bg' = bg"
    with assms show ?thesis by auto
  next
    assume "bg' = AList.update g (streams @ [e]) bg"
    with assms(2,3) Some show ?thesis
      by (auto simp: update_conv' split: if_splits)
  qed
qed

lemma pending_from_later:
  "skipped_line l \<Longrightarrow> pending_from c ls g e \<Longrightarrow> pending_from c (l # ls) g e"
proof -
  assume l: "skipped_line l" and "pending_from c ls g e"
  then obtain mid u post where "ls = mid @ u # post" "list_all skipped_line mid"
    "startsWith (trim u) ''http''" "e = stream_entry c (trim u)" "m_group c = g"
    unfolding pending_from_def by blast
  with l show ?thesis
    unfolding pending_from_def
    by (intro exI [of _ "l # mid"] exI [of _ u] exI [of _ post]) simp
qed

lemma pending_from_here:
  "startsWith (trim l) ''http'' \<Longrightarrow> pending_from c (l # ls) (m_group c) (stream_entry c (trim l))"
  unfolding pending_from_def
  by (intro exI [of _ "[]"] exI [of _ l] exI [of _ ls]) simp

lemma emitted_from_later:
  "emitted_from ls g e \<Longrightarrow> emitted_from (l # ls) g e"
  unfolding emitted_from_def
  by (metis append_Cons)

lemma emitted_from_here:
  "startsWith (trim l) ''#EXTINF'' \<Longrightarrow> pending_from (parse_extinf (trim l)) ls g e \<Longrightarrow>
     emitted_from (l # ls) g e"
  unfolding emitted_from_def
  by (metis append_Nil)

lemma iptv_lines_member:
  assumes "iptv_lines (bg, cur) ls = Inr (bg', cur')" and "map_of bg' g = Some es" and "e \<in> set es"
  shows "(\<exists>es0. map_of bg g = Some es0 \<and> e \<in> set es0) \<or>
         (\<exists>c. cur = Some c \<and> pending_from c ls g e) \<or>
         emitted_from ls g e"
  using assms
proof (induction ls arbitrary: bg cur)
  case Nil
  then show ?case by auto
next
  case (Cons l ls)
  from Cons.prems(1) obtain bg1 cur1 where
    step: "iptv_line (bg, cur) l = Inr (bg1, cur1)" and
    run: "iptv_lines (bg1, cur1) ls = Inr (bg', cur')"
    by (auto split: sum.splits)
  note ih = Cons.IH [OF run Cons.prems(2,3)]
  consider (meta) "startsWith (trim l) ''#EXTINF''"
    | (url) c where "\<not> startsWith (trim l) ''#EXTINF''" "startsWith (trim l) ''http''" "cur = Some c"
    | (idle) "\<not> startsWith (trim l) ''#EXTINF''" "startsWith (trim l) ''http''" "cur = None"
    | (other) "skipped_line l"
    unfolding skipped_line_def by (cases cur) auto
  then show ?case
  proof cases
    case meta
    with step have s: "bg1 = bg" "cur1 = Some (parse_extinf (trim l))"
      by (auto simp: iptv_line_def Let_def)
    from ih show ?thesis
      unfolding s using meta by (auto intro: emitted_from_here emitted_from_later)
  next
    case url
    with step have push: "push_stream bg (m_group c) (stream_entry c (trim l)) = Inr bg1"
      and s: "cur1 = None"
      by (auto simp: iptv_line_def Let_def split: sum.splits)
    from ih show ?thesis
    proof (elim disjE exE conjE)
      fix es0 assume "map_of bg1 g = Some es0" "e \<in> set es0"
      from push_stream_member [OF push this]
      show ?thesis using url pending_from_here by auto
    next
      fix c' assume "cur1 = Some c'"
      with s show ?thesis by simp
    next
      assume "emitted_from ls g e"
      then show ?thesis by (auto intro: emitted_from_later)
    qed
  next
    case idle
    with step have s: "bg1 = bg" "cur1 = None"
      by (auto simp: iptv_line_def Let_def)
    from ih show ?thesis
      unfolding s by (auto intro: emitted_from_later)
  next
    case other
    with step have s: "bg1 = bg" "cur1 = cur"
      by (auto simp: iptv_line_def Let_def skipped_line_def)
    from ih show ?thesis
      unfolding s using other by (auto intro: emitted_from_later pending_from_later)
  qed
qed

subsection \<open>Properties of the Playlist Fetcher\<close>

text \<open>
  Claim C9, as the code has it. When \<open>fetchIptvOrg\<close> returns, every entry of every group
  comes from two lines of the playlist text: a metadata line (one that starts with
  \<open>#EXTINF\<close> once trimmed), which gives the entry's name, logo, id and group, and the
  first later line that starts with \<open>http\<close> once trimmed, which gives its URL. The lines
  between the two are neither metadata lines nor URL lines, blank or not: the loop skips
  them. So an entry is emitted only when both halves are present.
\<close>

theorem fetchIptvOrg_line_pairs:
  assumes "fetchIptvOrg raw = Inr byGroup" and "map_of byGroup g = Some es" and "e \<in> set es"
  shows "\<exists>body pre m mid u post.
      raw = Some body \<and> split CHR 0x0A body = pre @ m # mid @ u # post \<and>
      startsWith (trim m) ''#EXTINF'' \<and>
      list_all (\<lambda>l. \<not> startsWith (trim l) ''#EXTINF'' \<and> \<not> startsWith (trim l) ''http'') mid \<and>
      startsWith (trim u) ''http'' \<and>
      e = stream_entry (parse_extinf (trim m)) (trim u) \<and>
      url e = Some (trim u) \<and>
      g = m_group (parse_extinf (trim m))"
proof -
  from assms obtain body where raw: "raw = Some body" and "body \<noteq> []"
    by (cases raw) (auto simp: fetchIptvOrg_def split: if_splits)
  with assms(1) obtain cur' where
    run: "iptv_lines ([], None) (split CHR 0x0A body) = Inr (byGroup, cur')"
    by (auto simp: fetchIptvOrg_def split: sum.splits)
  from iptv_lines_member [OF run assms(2,3)]
  have "emitted_from (split CHR 0x0A body) g e" by simp
  then obtain pre m mid u post where
    "split CHR 0x0A body = pre @ m # mid @ u # post" "startsWith (trim m) ''#EXTINF''"
    "list_all skipped_line mid" "startsWith (trim u) ''http''"
    "e = stream_entry (parse_extinf (trim m)) (trim u)" "m_group (parse_extinf (trim m)) = g"
    unfolding emitted_from_def pending_from_def by blast
  moreover have "skipped_line = (\<lambda>l. \<not> startsWith (trim l) ''#EXTINF'' \<and> \<not> startsWith (trim l) ''http'')"
    by (rule ext) (simp add: skipped_line_def)
  moreover have "url (stream_entry (parse_extinf (trim m)) (trim u)) = Some (trim u)"
    by (simp add: url_def stream_entry_def)
  ultimately show ?thesis
    using raw
    by (intro exI [of _ body] exI [of _ pre] exI [of _ m] exI [of _ mid] exI [of _ u] exI [of _ post])
      simp
qed

text \<open>A playlist with a header, one metadata line and its URL line.\<close>

lemma iptv_example_run:
  "fetchIptvOrg (Some (''#EXTM3U'' @ [CHR 0x0A] @
      ''#EXTINF:-1 tvg-id='' @ [CHR 0x22] @ ''bbc'' @ [CHR 0x22] @
        '' group-title='' @ [CHR 0x22] @ ''News'' @ [CHR 0x22] @ '',BBC'' @ [CHR 0x0A] @
      ''http://bbc'')) =
    Inr [(''News'', [[(''name'', ''BBC''), (''logo'', []), (''id'', ''bbc''), (''group'', ''News''),
                     (''source'', ''iptv-org''), (''type'', ''live''), (''url'', ''http://bbc'')]])]"
  by code_simp

text \<open>The theorem at that playlist.\<close>

theorem fetchIptvOrg_line_pairs_witness:
  "fetchIptvOrg (Some (''#EXTM3U'' @ [CHR 0x0A] @
      ''#EXTINF:-1 tvg-id='' @ [CHR 0x22] @ ''bbc'' @ [CHR 0x22] @
        '' group-title='' @ [CHR 0x22] @ ''News'' @ [CHR 0x22] @ '',BBC'' @ [CHR 0x0A] @
      ''http://bbc'')) =
    Inr [(''News'', [[(''name'', ''BBC''), (''logo'', []), (''id'', ''bbc''), (''group'', ''News''),
                     (''source'', ''iptv-org''), (''type'', ''live''), (''url'', ''http://bbc'')]])] \<and>
   (\<exists>body pre m mid u post.
      Some (''#EXTM3U'' @ [CHR 0x0A] @
      ''#EXTINF:-1 tvg-id='' @ [CHR 0x22] @ ''bbc'' @ [CHR 0x22] @
        '' group-title='' @ [CHR 0x22] @ ''News'' @ [CHR 0x22] @ '',BBC'' @ [CHR 0x0A] @
      ''http://bbc'') = Some body \<and> split CHR 0x0A body = pre @ m # mid @ u # post \<and>
      startsWith (trim m) ''#EXTINF'' \<and>
      startsWith (trim u) ''http'' \<and>
      [(''name'', ''BBC''), (''logo'', []), (''id'', ''bbc''), (''group'', ''News''),
       (''source'', ''iptv-org''), (''type'', ''live''), (''url'', ''http://bbc'')] =
        stream_entry (parse_extinf (trim m)) (trim u) \<and>
      ''News'' = m_group (parse_extinf (trim m)))"
proof -
  let ?e = "[(''name'', ''BBC''), (''logo'', []), (''id'', ''bbc''), (''group'', ''News''),
       (''source'', ''iptv-org''), (''type'', ''live''), (''url'', ''http://bbc'')]"
  have look: "map_of [(''News'', [?e])] ''News'' = Some [?e]" by simp
  have mem: "?e \<in> set [?e]" by simp
  from fetchIptvOrg_line_pairs [OF iptv_example_run look mem] iptv_example_run
  show ?thesis by blast
qed

text \<open>
  Claim C9 as stated takes the URL from the non-blank line that follows the metadata
  line. In a playlist with an option line between the two, the line that follows the
  metadata line is the option line, and the entry's URL is the line after it.
\<close>

theorem fetchIptvOrg_following_line_counterexample:
  "fetchIptvOrg (Some (''#EXTINF:-1,A'' @ [CHR 0x0A] @ ''#EXTVLCOPT:http-user-agent=X'' @ [CHR 0x0A] @ ''http://a'')) =
     Inr [(''General'', [[(''name'', ''A''), (''logo'', []), (''id'', []), (''group'', ''General''),
                         (''source'', ''iptv-org''), (''type'', ''live''), (''url'', ''http://a'')]])] \<and>
   split CHR 0x0A (''#EXTINF:-1,A'' @ [CHR 0x0A] @ ''#EXTVLCOPT:http-user-agent=X'' @ [CHR 0x0A] @ ''http://a'') =
     [''#EXTINF:-1,A'', ''#EXTVLCOPT:http-user-agent=X'', ''http://a''] \<and>
   following_nonblank [''#EXTVLCOPT:http-user-agent=X'', ''http://a''] = Some ''#EXTVLCOPT:http-user-agent=X'' \<and>
   following_nonblank [''#EXTVLCOPT:http-user-agent=X'', ''http://a''] \<noteq>
     url [(''name'', ''A''), (''logo'', []), (''id'', []), (''group'', ''General''),
          (''source'', ''iptv-org''), (''type'', ''live''), (''url'', ''http://a'')]"
  by code_simp

end
